theory Spec2Isabelle
  imports Complex_Main
begin

section \<open>Data model\<close>

text \<open>
  A decoded JSON value, as \<^verbatim>\<open>encoding/json\<close> stores it in an \<^verbatim>\<open>interface{}\<close>:
  nil, bool, float64, string, \<^verbatim>\<open>[]interface{}\<close> or \<^verbatim>\<open>map[string]interface{}\<close>.
  A float64 read from JSON text is a rational number.
\<close>

datatype json =
    JNull
  | JBool bool
  | JNumber rat
  | JString string
  | JArray "json list"
  | JObject "string \<Rightarrow> json option"

text \<open>
  A variable of type \<^verbatim>\<open>map[string]interface{}\<close>: \<open>None\<close> is the nil map, which
  reads like the empty map but is told apart by \<^verbatim>\<open>!= nil\<close> and by the encoder.
\<close>

type_synonym details = "(string \<Rightarrow> json option) option"

text \<open>
  \<^verbatim>\<open>m[key]\<close> on a \<^verbatim>\<open>map[string]interface{}\<close>: a missing key (also in the nil map)
  reads as the nil interface, like a key stored with JSON null.
\<close>

definition index :: "details \<Rightarrow> string \<Rightarrow> json" where
  "index m k = (case m of None \<Rightarrow> JNull
                | Some f \<Rightarrow> (case f k of None \<Rightarrow> JNull | Some v \<Rightarrow> v))"

text \<open>The type assertion \<^verbatim>\<open>v.(string)\<close>: value and ok flag (zero value \<^verbatim>\<open>""\<close> when not ok).\<close>

definition asString :: "json \<Rightarrow> string \<times> bool" where
  "asString v = (case v of JString s \<Rightarrow> (s, True) | _ \<Rightarrow> ([], False))"

text \<open>The type assertion \<^verbatim>\<open>v.(map[string]interface{})\<close>.\<close>

definition asMap :: "json \<Rightarrow> details \<times> bool" where
  "asMap v = (case v of JObject f \<Rightarrow> (Some f, True) | _ \<Rightarrow> (None, False))"

text \<open>
  \<^verbatim>\<open>json.Unmarshal([]byte(raw), &eventDetails)\<close> with \<^verbatim>\<open>eventDetails\<close> a fresh nil
  map belongs to the standard library, so it is a parameter of the model: it gives the
  value of \<^verbatim>\<open>eventDetails\<close> after the call and the returned error (\<open>None\<close> is
  \<^verbatim>\<open>err == nil\<close>).
\<close>

type_synonym unmarshal = "string \<Rightarrow> details \<times> string option"

text \<open>\<^verbatim>\<open>types.Resource\<close> and \<^verbatim>\<open>types.Event\<close> of the CloudTrail SDK: every field the
  program reads is a pointer (\<open>None\<close> is nil); \<^verbatim>\<open>Resources\<close> is a slice that may be nil.
  An instant is its number of nanoseconds since the Unix epoch, an unbounded integer:
  \<^verbatim>\<open>time.Time\<close> holds every instant the program builds (the present, and the years 0 to
  9999 of \<^verbatim>\<open>time.Parse\<close>) and adds to them without overflow.\<close>

type_synonym Time = int

record Resource =
  ResourceName :: "string option"
  ResourceType :: "string option"

record Event =
  EventName :: "string option"
  EventTime :: "Time option"
  EventSource :: "string option"
  Username :: "string option"
  Resources :: "Resource list option"
  CloudTrailEvent :: "string option"

text \<open>\<^verbatim>\<open>monitor.FilterOptions\<close>; its field \<^verbatim>\<open>EventName\<close> is \<open>EventName_f\<close> here, the
  name being taken by the field of the event.\<close>

record FilterOptions =
  KeyID :: string
  EventName_f :: string
  UserName :: string
  Operation :: string
  ErrorsOnly :: bool
  SuccessOnly :: bool

section \<open>The filter predicate\<close>

text \<open>\<^verbatim>\<open>strings.Contains(s, substr)\<close>: \<open>substr\<close> occurs in \<open>s\<close> as a contiguous
  run of bytes; the empty string occurs everywhere.\<close>

primrec Contains :: "string \<Rightarrow> string \<Rightarrow> bool" where
  "Contains [] substr = (substr = [])"
| "Contains (c # s) substr = (take (length substr) (c # s) = substr \<or> Contains s substr)"

text \<open>The loop over \<^verbatim>\<open>event.Resources\<close> in \<^verbatim>\<open>matchesFilter\<close>: true as soon as one
  resource has both fields, type \<^verbatim>\<open>AWS::KMS::Key\<close> and a name containing the key.\<close>

primrec resourceMatch :: "Resource list \<Rightarrow> string \<Rightarrow> bool" where
  "resourceMatch [] keyID = False"
| "resourceMatch (r # rs) keyID =
     (case (ResourceType r, ResourceName r) of
        (Some ty, Some nm) \<Rightarrow>
          if ty = ''AWS::KMS::Key'' \<and> Contains nm keyID then True else resourceMatch rs keyID
      | _ \<Rightarrow> resourceMatch rs keyID)"

text \<open>The second half of the key check: \<^verbatim>\<open>requestParameters.keyId\<close> of the detail
  document, when the raw JSON is there and decodes.\<close>

definition detailKeyMatch :: "unmarshal \<Rightarrow> Event \<Rightarrow> string \<Rightarrow> bool" where
  "detailKeyMatch unm event keyID =
     (case CloudTrailEvent event of
        None \<Rightarrow> False
      | Some raw \<Rightarrow>
          (case unm raw of
             (eventDetails, None) \<Rightarrow>
               (case asMap (index eventDetails ''requestParameters'') of
                  (reqParams, True) \<Rightarrow>
                    (case asString (index reqParams ''keyId'') of
                       (keyArn, exists) \<Rightarrow> exists \<and> Contains keyArn keyID)
                | (_, False) \<Rightarrow> False)
           | (_, Some err) \<Rightarrow> False))"

definition isKMSMatch :: "unmarshal \<Rightarrow> Event \<Rightarrow> string \<Rightarrow> bool" where
  "isKMSMatch unm event keyID =
     ((case Resources event of None \<Rightarrow> False | Some rs \<Rightarrow> resourceMatch rs keyID)
      \<or> detailKeyMatch unm event keyID)"

text \<open>The block guarded by \<^verbatim>\<open>filters.ErrorsOnly || filters.SuccessOnly\<close>: \<open>False\<close>
  where the source returns false, \<open>True\<close> where it falls through to the final
  \<^verbatim>\<open>return true\<close>.\<close>

definition errorCheck :: "unmarshal \<Rightarrow> Event \<Rightarrow> FilterOptions \<Rightarrow> bool" where
  "errorCheck unm event filters =
     (if ErrorsOnly filters \<or> SuccessOnly filters then
        (case CloudTrailEvent event of
           None \<Rightarrow> True
         | Some raw \<Rightarrow>
             (case unm raw of
                (eventDetails, None) \<Rightarrow>
                  (case asString (index eventDetails ''errorCode'') of
                     (errorCode, hasError) \<Rightarrow>
                       if ErrorsOnly filters \<and> \<not> hasError then False
                       else if SuccessOnly filters \<and> hasError \<and> errorCode \<noteq> [] then False
                       else True)
              | (_, Some err) \<Rightarrow> True))
      else True)"

text \<open>
  \<^verbatim>\<open>matchesFilter\<close>. \<^verbatim>\<open>strings.ToLower\<close> is the standard library's Unicode
  lower-casing and is the parameter \<open>lower\<close>.
\<close>

definition matchesFilter ::
  "unmarshal \<Rightarrow> (string \<Rightarrow> string) \<Rightarrow> Event \<Rightarrow> FilterOptions \<Rightarrow> bool" where
  "matchesFilter unm lower event filters =
     (if KeyID filters \<noteq> [] \<and> \<not> isKMSMatch unm event (KeyID filters) then False
      else if EventName_f filters \<noteq> [] \<and>
              (case EventName event of None \<Rightarrow> True
               | Some n \<Rightarrow> \<not> Contains (lower n) (lower (EventName_f filters))) then False
      else if UserName filters \<noteq> [] \<and>
              (case Username event of None \<Rightarrow> True
               | Some n \<Rightarrow> \<not> Contains (lower n) (lower (UserName filters))) then False
      else if Operation filters \<noteq> [] \<and>
              (case EventName event of None \<Rightarrow> True
               | Some n \<Rightarrow> \<not> Contains n (Operation filters)) then False
      else errorCheck unm event filters)"

section \<open>Time ranges (package timeutil)\<close>

text \<open>\<^verbatim>\<open>time.Duration\<close> counts nanoseconds in an int64.\<close>

definition Second :: int where "Second = 1000000000"
definition Minute :: int where "Minute = 60 * Second"
definition Hour :: int where "Hour = 60 * Minute"

definition maxDuration :: int where "maxDuration = 2 ^ 63 - 1"
definition minDuration :: int where "minDuration = - (2 ^ 63)"

text \<open>\<^verbatim>\<open>t.Sub(u)\<close>: the difference as a Duration, saturated at the largest and the
  smallest Duration when it does not fit.\<close>

definition Sub :: "Time \<Rightarrow> Time \<Rightarrow> int" where
  "Sub t u = (let d = t - u in
              if d > maxDuration then maxDuration
              else if d < minDuration then minDuration
              else d)"

text \<open>The errors of the package are built with \<^verbatim>\<open>fmt.Errorf\<close>; one constructor for
  each message.\<close>

datatype timeError =
    InvalidRelativeFormat   \<comment> \<open>invalid time range format. Use: ...\<close>
  | MinutesOutOfRange       \<comment> \<open>minutes must be between 1 and 1440 (24 hours)\<close>
  | HoursOutOfRange         \<comment> \<open>hours must be between 1 and 24\<close>
  | UnsupportedUnit         \<comment> \<open>unsupported time unit. Use 'm' for minutes or 'h' for hours\<close>
  | InvalidStartFormat      \<comment> \<open>invalid start time format. Use one of: ...\<close>
  | InvalidEndFormat        \<comment> \<open>invalid end time format. Use one of: ...\<close>
  | EndBeforeStart          \<comment> \<open>end time cannot be before start time\<close>
  | RangeTooLarge           \<comment> \<open>time range cannot exceed 24 hours\<close>
  | LastNWithStartEnd       \<comment> \<open>cannot use --last-n with --start/--end flags\<close>
  | StartEndNotTogether     \<comment> \<open>both --start and --end must be provided together\<close>
  | NoRangeGiven            \<comment> \<open>either --last-n or both --start and --end must be provided\<close>

text \<open>The class \<^verbatim>\<open>\d\<close> of Go's regexp: the ASCII digits.\<close>

definition isDigit :: "char \<Rightarrow> bool" where
  "isDigit c = ((48::nat) \<le> of_char c \<and> of_char c \<le> (57::nat))"

text \<open>The number a string of digits denotes in base ten.\<close>

definition decimal :: "string \<Rightarrow> int" where
  "decimal ds = foldl (\<lambda>acc c. acc * 10 + (int (of_char c) - 48)) 0 ds"

text \<open>\<^verbatim>\<open>regexp.MustCompile(`^(\d+)(m|h)$`).FindStringSubmatch(s)\<close>: the two groups when
  the whole string is one or more digits followed by \<^verbatim>\<open>m\<close> or \<^verbatim>\<open>h\<close>; \<open>None\<close> is the
  nil result.\<close>

definition FindStringSubmatch :: "string \<Rightarrow> (string \<times> string) option" where
  "FindStringSubmatch s =
     (if s = [] then None
      else if butlast s \<noteq> [] \<and> list_all isDigit (butlast s) \<and>
              (last s = CHR ''m'' \<or> last s = CHR ''h'')
        then Some (butlast s, [last s])
      else None)"

text \<open>\<^verbatim>\<open>value, _ := strconv.Atoi(matches[1])\<close> on a string of digits: the number, or the
  largest int (64 bits) when the number does not fit; the range error is dropped.\<close>

definition Atoi :: "string \<Rightarrow> int" where
  "Atoi ds = (if decimal ds > 2 ^ 63 - 1 then 2 ^ 63 - 1 else decimal ds)"

text \<open>\<^verbatim>\<open>RelativeTimeRange\<close>; \<open>now\<close> is the reading of \<^verbatim>\<open>time.Now()\<close>.\<close>

definition RelativeTimeRange :: "Time \<Rightarrow> string \<Rightarrow> timeError + (Time \<times> Time)" where
  "RelativeTimeRange now timeRange =
     (case FindStringSubmatch timeRange of
        None \<Rightarrow> Inl InvalidRelativeFormat
      | Some (digits, unit) \<Rightarrow>
          (let v = Atoi digits in
           if unit = ''m'' then
             (if v \<le> 0 \<or> v > 1440 then Inl MinutesOutOfRange
              else Inr (now + - (v * Minute), now))
           else if unit = ''h'' then
             (if v \<le> 0 \<or> v > 24 then Inl HoursOutOfRange
              else Inr (now + - (v * Hour), now))
           else Inl UnsupportedUnit))"

text \<open>\<^verbatim>\<open>time.Parse(layout, value)\<close> belongs to the standard library and is the
  parameter \<open>parse\<close>: the instant, or \<open>None\<close> when it returns an error.\<close>

type_synonym timeParse = "string \<Rightarrow> string \<Rightarrow> Time option"

definition layouts :: "string list" where
  "layouts = [''2006-01-02 15:04:05'', ''2006-01-02 15:04'', ''2006-01-02'']"

text \<open>The loop that tries each layout in turn and stops at the first that parses.\<close>

primrec tryLayouts :: "timeParse \<Rightarrow> string list \<Rightarrow> string \<Rightarrow> Time option" where
  "tryLayouts parse [] v = None"
| "tryLayouts parse (layout # rest) v =
     (case parse layout v of Some t \<Rightarrow> Some t | None \<Rightarrow> tryLayouts parse rest v)"

definition CustomTimeRange :: "timeParse \<Rightarrow> string \<Rightarrow> string \<Rightarrow> timeError + (Time \<times> Time)" where
  "CustomTimeRange parse start end =
     (case tryLayouts parse layouts start of
        None \<Rightarrow> Inl InvalidStartFormat
      | Some startTime \<Rightarrow>
          (case tryLayouts parse layouts end of
             None \<Rightarrow> Inl InvalidEndFormat
           | Some endParsed \<Rightarrow>
               (let endTime = (if Contains end '':'' = False
                               then endParsed + 23 * Hour + 59 * Minute + 59 * Second
                               else endParsed);
                    duration = Sub endTime startTime
                in if duration < 0 then Inl EndBeforeStart
                   else if duration > 24 * Hour then Inl RangeTooLarge
                   else Inr (startTime, endTime))))"

definition ValidateAndParseTimeRange ::
  "timeParse \<Rightarrow> Time \<Rightarrow> string \<Rightarrow> string \<Rightarrow> string \<Rightarrow> timeError + (Time \<times> Time)" where
  "ValidateAndParseTimeRange parse now lastN start end =
     (if lastN \<noteq> [] then
        (if start \<noteq> [] \<or> end \<noteq> [] then Inl LastNWithStartEnd
         else RelativeTimeRange now lastN)
      else if (start \<noteq> [] \<and> end = []) \<or> (start = [] \<and> end \<noteq> []) then Inl StartEndNotTogether
      else if start = [] \<and> end = [] then Inl NoRangeGiven
      else CustomTimeRange parse start end)"

section \<open>The event sink (package writer)\<close>

subsection \<open>Paths\<close>

text \<open>The path elements between the separators of a slash-separated path; an empty
  path has the one element \<open>[]\<close>.\<close>

fun splitPath :: "string \<Rightarrow> string list" where
  "splitPath [] = [[]]"
| "splitPath (c # cs) =
     (if c = CHR ''/'' then [] # splitPath cs
      else (case splitPath cs of [] \<Rightarrow> [[c]] | x # xs \<Rightarrow> (c # x) # xs))"

text \<open>\<^verbatim>\<open>strings.Join(elems, "/")\<close>.\<close>

fun joinSlash :: "string list \<Rightarrow> string" where
  "joinSlash [] = []"
| "joinSlash [x] = x"
| "joinSlash (x # y # ys) = x @ ''/'' @ joinSlash (y # ys)"

text \<open>
  \<^verbatim>\<open>filepath.Clean\<close> on a system whose separator is the slash, element by element:
  empty elements and \<^verbatim>\<open>.\<close> are dropped; \<^verbatim>\<open>..\<close> removes the element before it when
  there is one that is not itself \<^verbatim>\<open>..\<close>, is dropped at the root, and is kept at the
  front of a relative path. \<open>out\<close> holds the elements written so far.
\<close>

definition cleanStep :: "bool \<Rightarrow> string list \<Rightarrow> string \<Rightarrow> string list" where
  "cleanStep rooted out elem =
     (if elem = [] \<or> elem = ''.'' then out
      else if elem = ''..'' then
        (if out \<noteq> [] \<and> last out \<noteq> ''..'' then butlast out
         else if \<not> rooted then out @ [''..'']
         else out)
      else out @ [elem])"

definition Clean :: "string \<Rightarrow> string" where
  "Clean path =
     (if path = [] then ''.''
      else
        (let rooted = (hd path = CHR ''/'');
             out = foldl (cleanStep rooted) [] (splitPath path)
         in if rooted then ''/'' @ joinSlash out
            else if out = [] then ''.''
            else joinSlash out))"

text \<open>\<^verbatim>\<open>filepath.Join\<close>: the elements from the first non-empty one on are joined with
  slashes and cleaned; the result is empty when every element is empty.\<close>

definition Join :: "string list \<Rightarrow> string" where
  "Join elem =
     (case dropWhile (\<lambda>e. e = []) elem of
        [] \<Rightarrow> []
      | es \<Rightarrow> Clean (joinSlash es))"

subsection \<open>The environment\<close>

text \<open>A function that ran to its end with a value, or panicked.\<close>

datatype 'a outcome = Panicked | Returned 'a

text \<open>One page of \<^verbatim>\<open>LookupEvents\<close>: its events and its continuation token.\<close>

record Page =
  Events :: "Event list"
  NextToken :: "string option"

text \<open>
  What the program takes from the standard library, the operating system and the query
  service, as parameters of the model:
  \<^item> \<open>unmarshal\<close> is \<^verbatim>\<open>json.Unmarshal\<close> into a nil \<^verbatim>\<open>map[string]interface{}\<close>;
  \<^item> \<open>toLower\<close> is \<^verbatim>\<open>strings.ToLower\<close>;
  \<^item> \<open>format layout t\<close> is \<^verbatim>\<open>t.Format(layout)\<close>, in the zone of \<open>t\<close>;
  \<^item> \<open>marshalIndent v\<close> is \<^verbatim>\<open>json.MarshalIndent(v, "", "  ")\<close>, \<open>Inl\<close> its error;
  \<^item> \<open>showValue v\<close> is what \<^verbatim>\<open>Sprintf\<close> prints for \<^verbatim>\<open>%v\<close>;
  \<^item> \<open>rangeKeys m\<close> lists the keys of a map in the order a \<^verbatim>\<open>range\<close> loop visits them;
  \<^item> \<open>clock n\<close> is the reading of the \<open>n\<close>-th call of \<^verbatim>\<open>time.Now()\<close>;
  \<^item> \<open>openError n path\<close> is the error of the \<open>n\<close>-th call of \<^verbatim>\<open>os.OpenFile\<close>, on
    \<open>path\<close> in append and create mode, and \<open>writeError n path\<close> the error of the
    \<^verbatim>\<open>WriteString\<close> that follows it (\<open>None\<close>: no error);
  \<^item> \<open>nextPage start end n\<close> is the result of the \<open>n\<close>-th call of the paginator's
    \<^verbatim>\<open>NextPage\<close> for the window, \<open>Inl\<close> its error.
\<close>

record world =
  unmarshal :: unmarshal
  toLower :: "string \<Rightarrow> string"
  format :: "string \<Rightarrow> Time \<Rightarrow> string"
  marshalIndent :: "json \<Rightarrow> string + string"
  showValue :: "json \<Rightarrow> string"
  rangeKeys :: "(string \<Rightarrow> json option) \<Rightarrow> string list"
  clock :: "nat \<Rightarrow> Time"
  openError :: "nat \<Rightarrow> string \<Rightarrow> string option"
  writeError :: "nat \<Rightarrow> string \<Rightarrow> string option"
  nextPage :: "Time \<Rightarrow> Time \<Rightarrow> nat \<Rightarrow> string + Page"

text \<open>What the console shows, line by line or block by block.\<close>

datatype console =
    Line string
  | Warning string string      \<comment> \<open>the message and the error printed with \<^verbatim>\<open>%v\<close>\<close>
  | EventBlock Event details   \<comment> \<open>the block of one matching event\<close>
  | Found nat                  \<comment> \<open>Found \<^verbatim>\<open>%d\<close> matching events\<close>

text \<open>The state the program changes: the files, the number of clock readings, of files
  opened and of pages requested so far, and what the console has shown (first line
  first).\<close>

record sys =
  files :: "string \<Rightarrow> string option"
  ticks :: nat
  opens :: nat
  requests :: nat
  shown :: "console list"

subsection \<open>The writer\<close>

record LogWriter =
  outputDir :: string
  serviceTag :: string
  customFile :: string
  exportMode :: string

record ExportOptions =
  Filename :: string
  Format :: string

text \<open>\<^verbatim>\<open>NewLogWriter\<close>; the directories it creates with \<^verbatim>\<open>os.MkdirAll\<close>, whose error it
  drops, are not files of the model.\<close>

definition NewLogWriter :: "string \<Rightarrow> string \<Rightarrow> ExportOptions option \<Rightarrow> LogWriter" where
  "NewLogWriter dir tag options =
     (case options of
        None \<Rightarrow> \<lparr>outputDir = dir, serviceTag = tag, customFile = [], exportMode = []\<rparr>
      | Some opts \<Rightarrow> \<lparr>outputDir = dir, serviceTag = tag,
                      customFile = Filename opts, exportMode = Format opts\<rparr>)"

definition SafeString :: "string option \<Rightarrow> string" where
  "SafeString s = (case s of None \<Rightarrow> ''N/A'' | Some v \<Rightarrow> v)"

definition newline :: string where
  "newline = [CHR 0x0A]"

text \<open>The two loops of \<^verbatim>\<open>formatEventAsText\<close> over a parameter map: one line for each key
  whose value is not nil.\<close>

definition paramLines :: "world \<Rightarrow> (string \<Rightarrow> json option) \<Rightarrow> string" where
  "paramLines W m =
     concat (map (\<lambda>k. case m k of
                        None \<Rightarrow> []
                      | Some JNull \<Rightarrow> []
                      | Some v \<Rightarrow> ''    '' @ k @ '': '' @ showValue W v @ newline)
                 (rangeKeys W m))"

definition paramSection :: "world \<Rightarrow> string \<Rightarrow> json \<Rightarrow> string" where
  "paramSection W title v =
     (case asMap v of
        (Some m, True) \<Rightarrow>
          if rangeKeys W m \<noteq> [] then ''  '' @ title @ '':'' @ newline @ paramLines W m else []
      | _ \<Rightarrow> [])"

text \<open>\<^verbatim>\<open>formatEventAsText\<close>; it panics on an event without \<^verbatim>\<open>EventTime\<close>.\<close>

definition formatEventAsText :: "world \<Rightarrow> Event \<Rightarrow> details \<Rightarrow> string outcome" where
  "formatEventAsText W event eventDetails =
     (case EventTime event of
        None \<Rightarrow> Panicked
      | Some t \<Rightarrow>
          Returned
            (''['' @ format W ''2006-01-02 15:04:05'' t @ ''] '' @ SafeString (EventName event)
               @ newline
             @ ''Source: '' @ SafeString (EventSource event) @ newline
             @ ''User: '' @ (case Username event of None \<Rightarrow> ''N/A'' | Some u \<Rightarrow> u) @ newline
             @ (case Resources event of
                  None \<Rightarrow> []
                | Some rs \<Rightarrow>
                    if rs \<noteq> [] then
                      ''Resources:'' @ newline
                      @ concat (map (\<lambda>r. ''  - '' @ SafeString (ResourceName r) @ '' (''
                                          @ SafeString (ResourceType r) @ '')'' @ newline) rs)
                    else [])
             @ (case eventDetails of
                  None \<Rightarrow> []
                | Some m \<Rightarrow>
                    ''Details:'' @ newline
                    @ paramSection W ''Request Parameters'' (index eventDetails ''requestParameters'')
                    @ paramSection W ''Response Elements'' (index eventDetails ''responseElements''))
             @ replicate 80 (CHR ''-'') @ newline))"

text \<open>The JSON value the encoder builds for the fields of the record: a nil pointer and
  a nil slice or map are \<^verbatim>\<open>null\<close>, a \<^verbatim>\<open>types.Resource\<close> is an object keyed by its field
  names.\<close>

definition stringJSON :: "string option \<Rightarrow> json" where
  "stringJSON s = (case s of None \<Rightarrow> JNull | Some v \<Rightarrow> JString v)"

definition resourceJSON :: "Resource \<Rightarrow> json" where
  "resourceJSON r =
     JObject [''ResourceName'' \<mapsto> stringJSON (ResourceName r),
              ''ResourceType'' \<mapsto> stringJSON (ResourceType r)]"

definition resourcesJSON :: "Resource list option \<Rightarrow> json" where
  "resourcesJSON rs = (case rs of None \<Rightarrow> JNull | Some l \<Rightarrow> JArray (map resourceJSON l))"

definition detailsJSON :: "details \<Rightarrow> json" where
  "detailsJSON d = (case d of None \<Rightarrow> JNull | Some m \<Rightarrow> JObject m)"

text \<open>The map \<^verbatim>\<open>jsonData\<close> of \<^verbatim>\<open>WriteEvent\<close>, given the formatted event time.\<close>

definition jsonData :: "string \<Rightarrow> Event \<Rightarrow> details \<Rightarrow> (string \<Rightarrow> json option)" where
  "jsonData timestamp event eventDetails =
     [''timestamp'' \<mapsto> JString timestamp,
      ''eventName'' \<mapsto> JString (SafeString (EventName event)),
      ''eventSource'' \<mapsto> JString (SafeString (EventSource event)),
      ''user'' \<mapsto> JString (SafeString (Username event)),
      ''resources'' \<mapsto> resourcesJSON (Resources event),
      ''details'' \<mapsto> detailsJSON eventDetails]"

text \<open>The text \<^verbatim>\<open>WriteEvent\<close> builds after the file is open: a panic on an event without
  \<^verbatim>\<open>EventTime\<close>, else the error of the encoder (\<open>Inl\<close>) or the content.\<close>

definition renderContent :: "world \<Rightarrow> LogWriter \<Rightarrow> Event \<Rightarrow> details \<Rightarrow> (string + string) outcome" where
  "renderContent W w event eventDetails =
     (if exportMode w = ''json'' then
        (case EventTime event of
           None \<Rightarrow> Panicked
         | Some t \<Rightarrow>
             (case marshalIndent W
                     (JObject (jsonData (format W ''2006-01-02 15:04:05'' t) event eventDetails)) of
                Inl err \<Rightarrow> Returned (Inl (''failed to marshal JSON: '' @ err))
              | Inr jsonBytes \<Rightarrow> Returned (Inr (jsonBytes @ newline))))
      else
        (case formatEventAsText W event eventDetails of
           Panicked \<Rightarrow> Panicked
         | Returned content \<Rightarrow> Returned (Inr content)))"

text \<open>
  \<^verbatim>\<open>WriteEvent\<close>: the returned error (\<open>None\<close> is nil) or a panic, and the new state.
  Opening creates the file when it is missing; a successful write appends the content; a
  failed write is taken to leave the file as it was.
\<close>

definition WriteEvent ::
  "world \<Rightarrow> LogWriter \<Rightarrow> Event \<Rightarrow> details \<Rightarrow> sys \<Rightarrow> string option outcome \<times> sys" where
  "WriteEvent W w event eventDetails st =
     (let (filename, st1) =
            (if customFile w \<noteq> [] then (customFile w, st)
             else (Join [outputDir w, serviceTag w,
                         serviceTag w @ ''-events-''
                           @ format W ''2006-01-02'' (clock W (ticks st)) @ ''.log''],
                   st\<lparr>ticks := ticks st + 1\<rparr>));
          n = opens st1;
          st2 = st1\<lparr>opens := n + 1\<rparr>
      in case openError W n filename of
           Some err \<Rightarrow> (Returned (Some (''failed to open log file: '' @ err)), st2)
         | None \<Rightarrow>
             (let old = (case files st2 filename of None \<Rightarrow> [] | Some c \<Rightarrow> c);
                  st3 = st2\<lparr>files := (files st2)(filename \<mapsto> old)\<rparr>
              in case renderContent W w event eventDetails of
                   Panicked \<Rightarrow> (Panicked, st3)
                 | Returned (Inl err) \<Rightarrow> (Returned (Some err), st3)
                 | Returned (Inr content) \<Rightarrow>
                     (case writeError W n filename of
                        Some err \<Rightarrow>
                          (Returned (Some (''failed to write to log file: '' @ err)), st3)
                      | None \<Rightarrow>
                          (Returned None,
                           st3\<lparr>files := (files st3)(filename \<mapsto> old @ content)\<rparr>))))"

text \<open>\<^verbatim>\<open>GetCurrentFile\<close>: the path, and the state with one more clock reading when the
  clock was read.\<close>

definition GetCurrentFile :: "world \<Rightarrow> LogWriter \<Rightarrow> sys \<Rightarrow> string \<times> sys" where
  "GetCurrentFile W w st =
     (if customFile w \<noteq> [] then (customFile w, st)
      else (Join [outputDir w, serviceTag w,
                  serviceTag w @ ''-events-'' @ format W ''2006-01-02'' (clock W (ticks st))
                    @ ''.log''],
            st\<lparr>ticks := ticks st + 1\<rparr>))"

section \<open>The scan (package monitor)\<close>

record Monitor =
  logWriter :: LogWriter


definition say :: "console \<Rightarrow> sys \<Rightarrow> sys" where
  "say l st = st\<lparr>shown := shown st @ [l]\<rparr>"

text \<open>The lines \<^verbatim>\<open>MonitorKMSEvents\<close> prints before it asks for the first page.\<close>

definition printHeader :: "world \<Rightarrow> Monitor \<Rightarrow> FilterOptions \<Rightarrow> Time \<Rightarrow> Time \<Rightarrow> sys \<Rightarrow> sys" where
  "printHeader W m filters start end st =
     (let st1 = say (Line ''Active Filters:'') st;
          st2 = (if KeyID filters \<noteq> [] then say (Line (''- KMS Key: '' @ KeyID filters)) st1 else st1);
          st3 = (if EventName_f filters \<noteq> []
                 then say (Line (''- Event Name: '' @ EventName_f filters)) st2 else st2);
          st4 = (if UserName filters \<noteq> [] then say (Line (''- User: '' @ UserName filters)) st3 else st3);
          st5 = (if Operation filters \<noteq> []
                 then say (Line (''- Operation: '' @ Operation filters)) st4 else st4);
          st6 = (if ErrorsOnly filters then say (Line ''- Showing only errors'') st5 else st5);
          st7 = (if SuccessOnly filters
                 then say (Line ''- Showing only successful operations'') st6 else st6);
          st8 = say (Line (newline @ ''Time range: '' @ format W ''2006-01-02 15:04:05'' start
                             @ '' to '' @ format W ''2006-01-02 15:04:05'' end)) st7;
          (logFile, st9) = GetCurrentFile W (logWriter m) st8;
          st10 = say (Line (''Output file: '' @ logFile)) st9
      in say (Line (replicate 80 (CHR ''-''))) st10)"

text \<open>
  The body of the loop over the events of a page, for one event: a panic, or the new
  event count and state. An event that does not match is skipped. For a matching event
  the detail JSON is decoded and the record written; an error of either is shown as a
  warning and the body goes on to the console block, whose first statement dereferences
  \<^verbatim>\<open>EventTime\<close>.
\<close>

definition handleEvent ::
  "world \<Rightarrow> Monitor \<Rightarrow> FilterOptions \<Rightarrow> Event \<Rightarrow> nat \<times> sys \<Rightarrow> (nat \<times> sys) outcome" where
  "handleEvent W m filters event cs =
     (case cs of (eventCount, st) \<Rightarrow>
        if \<not> matchesFilter (unmarshal W) (toLower W) event filters then Returned (eventCount, st)
        else
          (let eventCount' = eventCount + 1;
               (eventDetails, st1) =
                 (case CloudTrailEvent event of
                    None \<Rightarrow> (None, st)
                  | Some raw \<Rightarrow>
                      (case unmarshal W raw of
                         (d, None) \<Rightarrow> (d, st)
                       | (d, Some err) \<Rightarrow>
                           (d, say (Warning ''Warning: Failed to parse event details: '' err) st)))
           in case WriteEvent W (logWriter m) event eventDetails st1 of
                (Panicked, st2) \<Rightarrow> Panicked
              | (Returned r, st2) \<Rightarrow>
                  (let st3 = (case r of
                                None \<Rightarrow> st2
                              | Some err \<Rightarrow>
                                  say (Warning ''Warning: Failed to write to log file: '' err) st2)
                   in case EventTime event of
                        None \<Rightarrow> Panicked
                      | Some t \<Rightarrow>
                          Returned (eventCount', say (EventBlock event eventDetails) st3))))"

text \<open>The loop over \<^verbatim>\<open>output.Events\<close>.\<close>

primrec handleEvents ::
  "world \<Rightarrow> Monitor \<Rightarrow> FilterOptions \<Rightarrow> Event list \<Rightarrow> nat \<times> sys \<Rightarrow> (nat \<times> sys) outcome" where
  "handleEvents W m filters [] cs = Returned cs"
| "handleEvents W m filters (event # rest) cs =
     (case handleEvent W m filters event cs of
        Panicked \<Rightarrow> Panicked
      | Returned cs' \<Rightarrow> handleEvents W m filters rest cs')"

text \<open>The paginator's \<^verbatim>\<open>HasMorePages\<close> after a page: there is a continuation token and
  it is not empty.\<close>

definition HasMorePages :: "Page \<Rightarrow> bool" where
  "HasMorePages page = (case NextToken page of None \<Rightarrow> False | Some tok \<Rightarrow> tok \<noteq> [])"

text \<open>
  The loop \<^verbatim>\<open>for paginator.HasMorePages()\<close>, entered for the \<open>n\<close>-th call of
  \<^verbatim>\<open>NextPage\<close> (\<^verbatim>\<open>HasMorePages\<close> is true before the first call). It runs as long as the
  service hands out continuation tokens, so it need not end: \<open>None\<close> is a run that never
  returns. A run that ends has panicked or returned the error of \<^verbatim>\<open>MonitorKMSEvents\<close>
  (\<open>None\<close> is nil) with the final event count and state.
\<close>

partial_function (option) pageLoop ::
  "world \<Rightarrow> Monitor \<Rightarrow> FilterOptions \<Rightarrow> Time \<Rightarrow> Time \<Rightarrow> nat \<Rightarrow> nat \<times> sys
     \<Rightarrow> (string option \<times> nat \<times> sys) outcome option" where
  "pageLoop W m filters start end n cs =
     (case cs of (eventCount, st) \<Rightarrow>
        let st1 = st\<lparr>requests := requests st + 1\<rparr> in
        case nextPage W start end n of
          Inl err \<Rightarrow> Some (Returned (Some (''error looking up events: '' @ err), eventCount, st1))
        | Inr output \<Rightarrow>
            (case handleEvents W m filters (Events output) (eventCount, st1) of
               Panicked \<Rightarrow> Some Panicked
             | Returned cs' \<Rightarrow>
                 if HasMorePages output then pageLoop W m filters start end (n + 1) cs'
                 else Some (Returned (None, cs'))))"

text \<open>\<^verbatim>\<open>MonitorKMSEvents\<close>, the variant that takes the filter options and calls
  \<^verbatim>\<open>matchesFilter\<close>: the returned error and the final state, a panic, or no return.\<close>

definition MonitorKMSEvents ::
  "world \<Rightarrow> Monitor \<Rightarrow> FilterOptions \<Rightarrow> Time \<Rightarrow> Time \<Rightarrow> sys \<Rightarrow> (string option \<times> sys) outcome option" where
  "MonitorKMSEvents W m filters start end st =
     (case pageLoop W m filters start end 0 (0, printHeader W m filters start end st) of
        None \<Rightarrow> None
      | Some Panicked \<Rightarrow> Some Panicked
      | Some (Returned (Some err, eventCount, st')) \<Rightarrow> Some (Returned (Some err, st'))
      | Some (Returned (None, eventCount, st')) \<Rightarrow>
          Some (Returned (None,
            if eventCount = 0
            then say (Line (newline @ ''No events found matching the specified filters'')) st'
            else say (Found eventCount) st')))"

section \<open>Notions used to state the filter properties\<close>

text \<open>The detail document of an event, as \<^verbatim>\<open>matchesFilter\<close> gets it: present when the
  event carries raw JSON and the decoder returns no error.\<close>

definition detailDoc :: "unmarshal \<Rightarrow> Event \<Rightarrow> details option" where
  "detailDoc unm event =
     (case CloudTrailEvent event of
        None \<Rightarrow> None
      | Some raw \<Rightarrow> (case unm raw of (d, None) \<Rightarrow> Some d | (_, Some err) \<Rightarrow> None))"

text \<open>The document has an \<^verbatim>\<open>errorCode\<close> entry that is a string.\<close>

definition hasErrorCode :: "details \<Rightarrow> bool" where
  "hasErrorCode d = (case index d ''errorCode'' of JString s \<Rightarrow> True | _ \<Rightarrow> False)"

text \<open>The document has an \<^verbatim>\<open>errorCode\<close> entry that is a non-empty string.\<close>

definition nonEmptyErrorCode :: "details \<Rightarrow> bool" where
  "nonEmptyErrorCode d = (case index d ''errorCode'' of JString s \<Rightarrow> s \<noteq> [] | _ \<Rightarrow> False)"

text \<open>The criteria set with nothing enabled, and the two with only one flag.\<close>

definition noFilters :: FilterOptions where
  "noFilters = \<lparr>KeyID = [], EventName_f = [], UserName = [], Operation = [],
                 ErrorsOnly = False, SuccessOnly = False\<rparr>"

definition errorsOnlyCriteria :: FilterOptions where
  "errorsOnlyCriteria = noFilters\<lparr>ErrorsOnly := True\<rparr>"

definition successOnlyCriteria :: FilterOptions where
  "successOnlyCriteria = noFilters\<lparr>SuccessOnly := True\<rparr>"

text \<open>\<open>g\<close> is \<open>f\<close> with one more criterion enabled: one string field that was empty is
  now set, or one flag that was off is now on; every other field is the same.\<close>

definition enablesOne :: "FilterOptions \<Rightarrow> FilterOptions \<Rightarrow> bool" where
  "enablesOne f g =
     ((KeyID f = [] \<and> KeyID g \<noteq> [] \<and> g = f\<lparr>KeyID := KeyID g\<rparr>) \<or>
      (EventName_f f = [] \<and> EventName_f g \<noteq> [] \<and> g = f\<lparr>EventName_f := EventName_f g\<rparr>) \<or>
      (UserName f = [] \<and> UserName g \<noteq> [] \<and> g = f\<lparr>UserName := UserName g\<rparr>) \<or>
      (Operation f = [] \<and> Operation g \<noteq> [] \<and> g = f\<lparr>Operation := Operation g\<rparr>) \<or>
      (\<not> ErrorsOnly f \<and> g = f\<lparr>ErrorsOnly := True\<rparr>) \<or>
      (\<not> SuccessOnly f \<and> g = f\<lparr>SuccessOnly := True\<rparr>))"

text \<open>\<open>g\<close> keeps every criterion that \<open>f\<close> has enabled and may enable more.\<close>

definition extendsCriteria :: "FilterOptions \<Rightarrow> FilterOptions \<Rightarrow> bool" where
  "extendsCriteria f g =
     ((KeyID f = [] \<or> KeyID g = KeyID f) \<and>
      (EventName_f f = [] \<or> EventName_f g = EventName_f f) \<and>
      (UserName f = [] \<or> UserName g = UserName f) \<and>
      (Operation f = [] \<or> Operation g = Operation f) \<and>
      (ErrorsOnly f \<longrightarrow> ErrorsOnly g) \<and>
      (SuccessOnly f \<longrightarrow> SuccessOnly g))"

section \<open>Concrete library functions and inputs for evaluation\<close>

text \<open>Lower-casing of ASCII letters, which is what \<^verbatim>\<open>strings.ToLower\<close> does on ASCII
  text.\<close>

definition asciiLower :: "string \<Rightarrow> string" where
  "asciiLower s =
     map (\<lambda>c. case map_of (zip ''ABCDEFGHIJKLMNOPQRSTUVWXYZ'' ''abcdefghijklmnopqrstuvwxyz'') c of
                 Some l \<Rightarrow> l
               | None \<Rightarrow> c) s"

text \<open>What the JSON decoder returns on three documents; every other text used below is
  not JSON and gives a syntax error, which leaves the map nil.\<close>

definition sampleUnmarshal :: unmarshal where
  \<open>sampleUnmarshal raw =
     (if raw = ''{"errorCode":"AccessDenied"}''
        then (Some [''errorCode'' \<mapsto> JString ''AccessDenied''], None)
      else if raw = ''{"requestParameters":{"keyId":"alias/app"}}''
        then (Some [''requestParameters'' \<mapsto> JObject [''keyId'' \<mapsto> JString ''alias/app'']], None)
      else if raw = ''{}'' then (Some Map.empty, None)
      else (None, Some ''invalid character''))\<close>

definition sampleEvent :: "string option \<Rightarrow> Event" where
  "sampleEvent raw =
     \<lparr>EventName = Some ''Decrypt'', EventTime = Some 1732096800000000000,
      EventSource = Some ''kms.amazonaws.com'', Username = Some ''admin'',
      Resources = Some [\<lparr>ResourceName = Some ''arn:aws:kms:us-east-1:1:key/abc'',
                         ResourceType = Some ''AWS::KMS::Key''\<rparr>],
      CloudTrailEvent = raw\<rparr>"

section \<open>Notions used to state the time-range properties\<close>

text \<open>The duration a relative spec asks for, in the words of the specification: an
  integer followed by the unit \<^verbatim>\<open>m\<close> (1 to 1440 minutes) or \<^verbatim>\<open>h\<close> (1 to 24 hours);
  \<open>None\<close> for every other string.\<close>

definition requestedDuration :: "string \<Rightarrow> int option" where
  "requestedDuration s =
     (if s \<noteq> [] \<and> butlast s \<noteq> [] \<and> list_all isDigit (butlast s) then
        (let n = decimal (butlast s) in
         if last s = CHR ''m'' \<and> 1 \<le> n \<and> n \<le> 1440 then Some (n * Minute)
         else if last s = CHR ''h'' \<and> 1 \<le> n \<and> n \<le> 24 then Some (n * Hour)
         else None)
      else None)"

text \<open>The calendar day (days since the epoch) and the time of day of an instant, in UTC,
  the zone of every instant that \<^verbatim>\<open>time.Parse\<close> returns for these layouts.\<close>

definition dayOf :: "Time \<Rightarrow> int" where
  "dayOf t = t div (24 * Hour)"

definition clockOf :: "Time \<Rightarrow> int" where
  "clockOf t = t mod (24 * Hour)"

section \<open>A calendar for evaluation\<close>

text \<open>Days since the epoch of a date of the proleptic Gregorian calendar, and back.\<close>

definition daysFromCivil :: "int \<Rightarrow> int \<Rightarrow> int \<Rightarrow> int" where
  "daysFromCivil y m d =
     (let y' = (if m \<le> 2 then y - 1 else y);
          era = y' div 400;
          yoe = y' - era * 400;
          doy = (153 * ((m + 9) mod 12) + 2) div 5 + d - 1;
          doe = yoe * 365 + yoe div 4 - yoe div 100 + doy
      in era * 146097 + doe - 719468)"

definition civilFromDays :: "int \<Rightarrow> int \<times> int \<times> int" where
  "civilFromDays z =
     (let z' = z + 719468;
          era = z' div 146097;
          doe = z' - era * 146097;
          yoe = (doe - doe div 1460 + doe div 36524 - doe div 146096) div 365;
          doy = doe - (365 * yoe + yoe div 4 - yoe div 100);
          mp = (5 * doy + 2) div 153;
          d = doy - (153 * mp + 2) div 5 + 1;
          m = (if mp < 10 then mp + 3 else mp - 9)
      in (yoe + era * 400 + (if m \<le> 2 then 1 else 0), m, d))"

definition daysIn :: "int \<Rightarrow> int \<Rightarrow> int" where
  "daysIn m y =
     (if m = 2 then (if y mod 4 = 0 \<and> (y mod 100 \<noteq> 0 \<or> y mod 400 = 0) then 29 else 28)
      else if m = 4 \<or> m = 6 \<or> m = 9 \<or> m = 11 then 30 else 31)"

text \<open>Reading \<^verbatim>\<open>YYYY-MM-DD\<close> and \<^verbatim>\<open>HH:mm:ss\<close> or \<^verbatim>\<open>HH:mm\<close> written with exactly these
  digits.\<close>

definition readDate :: "string \<Rightarrow> int option" where
  "readDate s =
     (case s of
        [y1, y2, y3, y4, s1, m1, m2, s2, d1, d2] \<Rightarrow>
          (let y = decimal [y1, y2, y3, y4]; m = decimal [m1, m2]; d = decimal [d1, d2] in
           if list_all isDigit [y1, y2, y3, y4, m1, m2, d1, d2] \<and> s1 = CHR ''-'' \<and> s2 = CHR ''-''
              \<and> 1 \<le> m \<and> m \<le> 12 \<and> 1 \<le> d \<and> d \<le> daysIn m y
           then Some (daysFromCivil y m d) else None)
      | _ \<Rightarrow> None)"

definition readClock :: "string \<Rightarrow> int option" where
  "readClock s =
     (case s of
        [h1, h2, c1, m1, m2] \<Rightarrow>
          (let h = decimal [h1, h2]; m = decimal [m1, m2] in
           if list_all isDigit [h1, h2, m1, m2] \<and> c1 = CHR '':'' \<and> h < 24 \<and> m < 60
           then Some (h * 3600 + m * 60) else None)
      | [h1, h2, c1, m1, m2, c2, s1, s2] \<Rightarrow>
          (let h = decimal [h1, h2]; m = decimal [m1, m2]; sec = decimal [s1, s2] in
           if list_all isDigit [h1, h2, m1, m2, s1, s2] \<and> c1 = CHR '':'' \<and> c2 = CHR '':''
              \<and> h < 24 \<and> m < 60 \<and> sec < 60
           then Some (h * 3600 + m * 60 + sec) else None)
      | _ \<Rightarrow> None)"

text \<open>What \<^verbatim>\<open>time.Parse\<close> returns for the three layouts of \<^verbatim>\<open>CustomTimeRange\<close> on
  values written exactly in the shape of the layout; other values are rejected here.\<close>

definition parseUTC :: timeParse where
  "parseUTC layout v =
     (if layout = ''2006-01-02'' then
        map_option (\<lambda>d. d * 24 * Hour) (readDate v)
      else if layout = ''2006-01-02 15:04'' \<and> length v = 16 \<and> v ! 10 = CHR '' '' then
        (case (readDate (take 10 v), readClock (drop 11 v)) of
           (Some d, Some c) \<Rightarrow> Some (d * 24 * Hour + c * Second)
         | _ \<Rightarrow> None)
      else if layout = ''2006-01-02 15:04:05'' \<and> length v = 19 \<and> v ! 10 = CHR '' '' then
        (case (readDate (take 10 v), readClock (drop 11 v)) of
           (Some d, Some c) \<Rightarrow> Some (d * 24 * Hour + c * Second)
         | _ \<Rightarrow> None)
      else None)"

text \<open>The instant of a date and time of day in UTC, for writing inputs down.\<close>

definition utc :: "int \<Rightarrow> int \<Rightarrow> int \<Rightarrow> int \<Rightarrow> int \<Rightarrow> int \<Rightarrow> Time" where
  "utc y m d hh mm ss = daysFromCivil y m d * 24 * Hour + (hh * 3600 + mm * 60 + ss) * Second"

section \<open>Notions used to state the properties of the sink and of the scan\<close>

text \<open>Every event of the list carries its \<^verbatim>\<open>EventTime\<close>, as every event of the query
  service does; the program dereferences the field without a check.\<close>

definition timed :: "Event list \<Rightarrow> bool" where
  "timed evs = list_all (\<lambda>e. EventTime e \<noteq> None) evs"


text \<open>The same, and the events of these pages carry their time.\<close>

definition pagesDelivered :: "world \<Rightarrow> Time \<Rightarrow> Time \<Rightarrow> nat \<Rightarrow> bool" where
  "pagesDelivered W start end n =
     (\<forall>i<n. case nextPage W start end i of
              Inl err \<Rightarrow> False
            | Inr p \<Rightarrow> HasMorePages p \<and> timed (Events p))"

text \<open>The value of \<^verbatim>\<open>eventDetails\<close> and the error after the decoding step of the scan
  loop; an event without raw JSON is not decoded.\<close>

definition decoded :: "world \<Rightarrow> Event \<Rightarrow> details" where
  "decoded W event =
     (case CloudTrailEvent event of None \<Rightarrow> None | Some raw \<Rightarrow> fst (unmarshal W raw))"

definition decodeError :: "world \<Rightarrow> Event \<Rightarrow> string option" where
  "decodeError W event =
     (case CloudTrailEvent event of None \<Rightarrow> None | Some raw \<Rightarrow> snd (unmarshal W raw))"

text \<open>The console after a step that may have failed: one more warning when it has.\<close>

definition warned :: "string \<Rightarrow> string option \<Rightarrow> sys \<Rightarrow> sys" where
  "warned msg err st = (case err of None \<Rightarrow> st | Some e \<Rightarrow> say (Warning msg e) st)"


text \<open>The path a write resolves when the clock reads \<open>now\<close>, in the words of the
  specification: the explicit file when one is configured, else
  \<^verbatim>\<open><outputDir>/<serviceTag>/<serviceTag>-events-<date>.log\<close>.\<close>

definition destination :: "world \<Rightarrow> LogWriter \<Rightarrow> Time \<Rightarrow> string" where
  "destination W w now =
     (if customFile w \<noteq> [] then customFile w
      else Join [outputDir w, serviceTag w,
                 serviceTag w @ ''-events-'' @ format W ''2006-01-02'' now @ ''.log''])"




text \<open>The part of the daily file name that follows the service tag.\<close>

definition logSuffix :: "string \<Rightarrow> string" where
  "logSuffix d = ''-events-'' @ d @ ''.log''"






text \<open>The events of a list that match the criteria.\<close>

definition matching :: "world \<Rightarrow> FilterOptions \<Rightarrow> Event list \<Rightarrow> Event list" where
  "matching W filters evs = filter (\<lambda>e. matchesFilter (unmarshal W) (toLower W) e filters) evs"





section \<open>A concrete environment for evaluation\<close>

text \<open>\<^verbatim>\<open>Format\<close> for the two layouts of the program, on instants in UTC of the years 0
  to 9999.\<close>

definition digits2 :: "int \<Rightarrow> string" where
  "digits2 n = [''0123456789'' ! nat (n div 10), ''0123456789'' ! nat (n mod 10)]"

definition formatUTC :: "string \<Rightarrow> Time \<Rightarrow> string" where
  "formatUTC layout t =
     (case civilFromDays (t div (24 * Hour)) of
        (y, m, d) \<Rightarrow>
          (let date = digits2 (y div 100) @ digits2 (y mod 100) @ ''-'' @ digits2 m @ ''-'' @ digits2 d;
               secs = (t mod (24 * Hour)) div Second
           in if layout = ''2006-01-02'' then date
              else if layout = ''2006-01-02 15:04:05'' then
                date @ '' '' @ digits2 (secs div 3600) @ '':'' @ digits2 ((secs mod 3600) div 60)
                  @ '':'' @ digits2 (secs mod 60)
              else []))"

text \<open>What \<^verbatim>\<open>json.MarshalIndent(v, "", "  ")\<close> prints for the record of an event whose
  strings need no escaping and whose detail document is nil: the keys in sorted order,
  two spaces of indentation for each level. Other values are not supported here.\<close>

definition quoted :: "string \<Rightarrow> string" where
  "quoted s = [CHR 0x22] @ s @ [CHR 0x22]"

definition scalarText :: "json option \<Rightarrow> string option" where
  "scalarText v =
     (case v of Some JNull \<Rightarrow> Some ''null'' | Some (JString s) \<Rightarrow> Some (quoted s) | _ \<Rightarrow> None)"

definition resourceText :: "json \<Rightarrow> string option" where
  "resourceText v =
     (case v of
        JObject f \<Rightarrow>
          (case (scalarText (f ''ResourceName''), scalarText (f ''ResourceType'')) of
             (Some nm, Some ty) \<Rightarrow>
               Some (''    {'' @ newline
                     @ ''      '' @ quoted ''ResourceName'' @ '': '' @ nm @ '','' @ newline
                     @ ''      '' @ quoted ''ResourceType'' @ '': '' @ ty @ newline
                     @ ''    }'')
           | _ \<Rightarrow> None)
      | _ \<Rightarrow> None)"

fun commaLines :: "string list \<Rightarrow> string" where
  "commaLines [] = []"
| "commaLines [x] = x"
| "commaLines (x # y # ys) = x @ '','' @ newline @ commaLines (y # ys)"

definition resourcesText :: "json option \<Rightarrow> string option" where
  "resourcesText v =
     (case v of
        Some JNull \<Rightarrow> Some ''null''
      | Some (JArray xs) \<Rightarrow>
          if xs = [] then Some ''[]''
          else if list_all (\<lambda>x. resourceText x \<noteq> None) xs
          then Some (''['' @ newline @ commaLines (map (\<lambda>x. the (resourceText x)) xs)
                     @ newline @ ''  ]'')
          else None
      | _ \<Rightarrow> None)"

definition recordMarshalIndent :: "json \<Rightarrow> string + string" where
  "recordMarshalIndent v =
     (case v of
        JObject f \<Rightarrow>
          (case (f ''details'', scalarText (f ''eventName''), scalarText (f ''eventSource''),
                 resourcesText (f ''resources''), scalarText (f ''timestamp''),
                 scalarText (f ''user'')) of
             (Some JNull, Some n, Some s, Some r, Some t, Some u) \<Rightarrow>
               Inr (''{'' @ newline
                    @ ''  '' @ quoted ''details'' @ '': null,'' @ newline
                    @ ''  '' @ quoted ''eventName'' @ '': '' @ n @ '','' @ newline
                    @ ''  '' @ quoted ''eventSource'' @ '': '' @ s @ '','' @ newline
                    @ ''  '' @ quoted ''resources'' @ '': '' @ r @ '','' @ newline
                    @ ''  '' @ quoted ''timestamp'' @ '': '' @ t @ '','' @ newline
                    @ ''  '' @ quoted ''user'' @ '': '' @ u @ newline
                    @ ''}'')
           | _ \<Rightarrow> Inl ''unsupported value'')
      | _ \<Rightarrow> Inl ''unsupported value'')"

text \<open>The record of \<open>sampleEvent None\<close> as that encoder prints it, and a decoder that
  reads this one text back and is \<open>sampleUnmarshal\<close> on every other text.\<close>

definition sampleRecordText :: string where
  "sampleRecordText =
     ''{'' @ newline
     @ ''  '' @ quoted ''details'' @ '': null,'' @ newline
     @ ''  '' @ quoted ''eventName'' @ '': '' @ quoted ''Decrypt'' @ '','' @ newline
     @ ''  '' @ quoted ''eventSource'' @ '': '' @ quoted ''kms.amazonaws.com'' @ '','' @ newline
     @ ''  '' @ quoted ''resources'' @ '': ['' @ newline
     @ ''    {'' @ newline
     @ ''      '' @ quoted ''ResourceName'' @ '': '' @ quoted ''arn:aws:kms:us-east-1:1:key/abc''
       @ '','' @ newline
     @ ''      '' @ quoted ''ResourceType'' @ '': '' @ quoted ''AWS::KMS::Key'' @ newline
     @ ''    }'' @ newline
     @ ''  ],'' @ newline
     @ ''  '' @ quoted ''timestamp'' @ '': '' @ quoted ''2024-11-20 10:00:00'' @ '','' @ newline
     @ ''  '' @ quoted ''user'' @ '': '' @ quoted ''admin'' @ newline
     @ ''}''"

definition recordUnmarshal :: unmarshal where
  "recordUnmarshal raw =
     (if raw = sampleRecordText @ newline
      then (Some (jsonData ''2024-11-20 10:00:00'' (sampleEvent None) None), None)
      else sampleUnmarshal raw)"

text \<open>A query service whose first page holds two events and a token and whose second
  request fails; and one whose second page is the last.\<close>

definition firstPage :: Page where
  "firstPage = \<lparr>Events = [sampleEvent (Some ''not json''), sampleEvent (Some ''{}'')],
                NextToken = Some ''token-1''\<rparr>"

definition failingService :: "Time \<Rightarrow> Time \<Rightarrow> nat \<Rightarrow> string + Page" where
  "failingService start end n = (if n = 0 then Inr firstPage else Inl ''connection reset'')"


text \<open>The environment: the clock reads 2024-11-20 23:59:59 first and one second more at
  each reading; the first file cannot be opened, every later one can.\<close>

definition sampleWorld :: world where
  "sampleWorld =
     \<lparr>unmarshal = recordUnmarshal, toLower = asciiLower, format = formatUTC,
      marshalIndent = recordMarshalIndent,
      showValue = (\<lambda>v. case v of JString s \<Rightarrow> s | _ \<Rightarrow> ''<nil>''),
      rangeKeys = (\<lambda>m. []),
      clock = (\<lambda>n. utc 2024 11 20 23 59 59 + int n * Second),
      openError = (\<lambda>n path. if n = 0 then Some ''permission denied'' else None),
      writeError = (\<lambda>n path. None),
      nextPage = failingService\<rparr>"

definition sampleWriter :: LogWriter where
  "sampleWriter = NewLogWriter ''/var/log/monitor'' ''kms'' None"

definition jsonWriter :: LogWriter where
  "jsonWriter = NewLogWriter ''/var/log/monitor'' ''kms''
                  (Some \<lparr>Filename = ''/tmp/events.json'', Format = ''json''\<rparr>)"

definition emptySys :: sys where
  "emptySys = \<lparr>files = Map.empty, ticks = 0, opens = 0, requests = 0, shown = []\<rparr>"


text \<open>The same environment with a file system that never fails.\<close>

definition quietWorld :: world where
  "quietWorld = sampleWorld\<lparr>openError := (\<lambda>n path. None)\<rparr>"





section \<open>Properties of the filter predicate\<close>

lemma errorCheck_doc:
  "errorCheck unm e f =
     (case detailDoc unm e of
        None \<Rightarrow> True
      | Some d \<Rightarrow> (ErrorsOnly f \<longrightarrow> hasErrorCode d) \<and> (SuccessOnly f \<longrightarrow> \<not> nonEmptyErrorCode d))"
  by (auto simp: errorCheck_def detailDoc_def hasErrorCode_def nonEmptyErrorCode_def asString_def
           split: option.splits prod.splits json.splits)

lemma matchesFilter_conj:
  "matchesFilter unm lower e f =
     ((KeyID f \<noteq> [] \<longrightarrow> isKMSMatch unm e (KeyID f)) \<and>
      (EventName_f f \<noteq> [] \<longrightarrow>
         (\<exists>n. EventName e = Some n \<and> Contains (lower n) (lower (EventName_f f)))) \<and>
      (UserName f \<noteq> [] \<longrightarrow>
         (\<exists>n. Username e = Some n \<and> Contains (lower n) (lower (UserName f)))) \<and>
      (Operation f \<noteq> [] \<longrightarrow>
         (\<exists>n. EventName e = Some n \<and> Contains n (Operation f))) \<and>
      errorCheck unm e f)"
  unfolding matchesFilter_def
  by (cases "EventName e"; cases "Username e"; simp)

lemma errorCheck_antimono:
  "(ErrorsOnly f \<longrightarrow> ErrorsOnly g) \<Longrightarrow> (SuccessOnly f \<longrightarrow> SuccessOnly g) \<Longrightarrow>
   errorCheck unm e g \<Longrightarrow> errorCheck unm e f"
  unfolding errorCheck_doc by (cases "detailDoc unm e") auto

lemma matchesFilter_antimono:
  "extendsCriteria f g \<Longrightarrow> matchesFilter unm lower e g \<Longrightarrow> matchesFilter unm lower e f"
  unfolding extendsCriteria_def matchesFilter_conj
  by (metis errorCheck_antimono)

lemma enablesOne_extends: "enablesOne f g \<Longrightarrow> extendsCriteria f g"
  unfolding enablesOne_def extendsCriteria_def
  apply (elim disjE conjE)
  apply (cases f, cases g, simp)+
  done

lemma matchesFilter_flags_off:
  "matchesFilter unm lower e (f\<lparr>ErrorsOnly := False, SuccessOnly := False\<rparr>) =
     ((KeyID f \<noteq> [] \<longrightarrow> isKMSMatch unm e (KeyID f)) \<and>
      (EventName_f f \<noteq> [] \<longrightarrow>
         (\<exists>n. EventName e = Some n \<and> Contains (lower n) (lower (EventName_f f)))) \<and>
      (UserName f \<noteq> [] \<longrightarrow>
         (\<exists>n. Username e = Some n \<and> Contains (lower n) (lower (UserName f)))) \<and>
      (Operation f \<noteq> [] \<longrightarrow>
         (\<exists>n. EventName e = Some n \<and> Contains n (Operation f))))"
  by (simp add: matchesFilter_conj errorCheck_def)

lemma sample_docs:
  "detailDoc sampleUnmarshal (sampleEvent None) = None"
  "detailDoc sampleUnmarshal (sampleEvent (Some ''not json'')) = None"
  "detailDoc sampleUnmarshal (sampleEvent (Some ''{}'')) = Some (Some Map.empty)"
  \<open>detailDoc sampleUnmarshal (sampleEvent (Some ''{"errorCode":"AccessDenied"}''))
     = Some (Some [''errorCode'' \<mapsto> JString ''AccessDenied''])\<close>
  by (simp_all add: detailDoc_def sampleEvent_def sampleUnmarshal_def)

text \<open>
  C1, as the claim states it, fails: with only \<^verbatim>\<open>ErrorsOnly\<close> enabled, an event that
  carries no raw detail JSON matches, and so does an event whose detail JSON does not
  decode. Neither has a detail document, let alone one with an error code.
\<close>

theorem errorsOnly_without_document_counterexample:
  "ErrorsOnly errorsOnlyCriteria \<and>
   detailDoc sampleUnmarshal (sampleEvent None) = None \<and>
   matchesFilter sampleUnmarshal asciiLower (sampleEvent None) errorsOnlyCriteria \<and>
   detailDoc sampleUnmarshal (sampleEvent (Some ''not json'')) = None \<and>
   matchesFilter sampleUnmarshal asciiLower (sampleEvent (Some ''not json'')) errorsOnlyCriteria"
  by (simp add: sample_docs matchesFilter_conj errorCheck_doc errorsOnlyCriteria_def noFilters_def)

text \<open>
  C1, amended: with \<^verbatim>\<open>ErrorsOnly\<close> enabled, \<^verbatim>\<open>matchesFilter\<close> returns false whenever
  the event's raw detail JSON is present, decodes, and the decoded document has no
  string-valued \<^verbatim>\<open>errorCode\<close>. When the event carries no raw detail JSON or it does not
  decode, the error check is skipped: the result is the one the other criteria give.
\<close>

theorem errorsOnly_rejects_decoded_without_errorCode:
  assumes "ErrorsOnly f"
  shows "(detailDoc unm e = Some d \<and> \<not> hasErrorCode d \<longrightarrow> \<not> matchesFilter unm lower e f) \<and>
         (detailDoc unm e = None \<longrightarrow>
            matchesFilter unm lower e f
              = matchesFilter unm lower e (f\<lparr>ErrorsOnly := False, SuccessOnly := False\<rparr>))"
  using assms unfolding matchesFilter_flags_off
  by (simp add: matchesFilter_conj errorCheck_doc)

theorem errorsOnly_rejects_decoded_without_errorCode_witness:
  "ErrorsOnly errorsOnlyCriteria \<and>
   detailDoc sampleUnmarshal (sampleEvent (Some ''{}'')) = Some (Some Map.empty) \<and>
   \<not> hasErrorCode (Some Map.empty) \<and>
   \<not> matchesFilter sampleUnmarshal asciiLower (sampleEvent (Some ''{}'')) errorsOnlyCriteria \<and>
   detailDoc sampleUnmarshal (sampleEvent None) = None \<and>
   matchesFilter sampleUnmarshal asciiLower (sampleEvent None) errorsOnlyCriteria
     = matchesFilter sampleUnmarshal asciiLower (sampleEvent None)
         (errorsOnlyCriteria\<lparr>ErrorsOnly := False, SuccessOnly := False\<rparr>)"
proof -
  have on: "ErrorsOnly errorsOnlyCriteria"
    by (simp add: errorsOnlyCriteria_def)
  have no_code: "\<not> hasErrorCode (Some Map.empty)"
    by (simp add: hasErrorCode_def index_def)
  show ?thesis
    using on no_code sample_docs(1,3)
      errorsOnly_rejects_decoded_without_errorCode
        [OF on, of sampleUnmarshal "sampleEvent (Some ''{}'')" "Some Map.empty" asciiLower]
      errorsOnly_rejects_decoded_without_errorCode
        [OF on, of sampleUnmarshal "sampleEvent None" "Some Map.empty" asciiLower]
    by blast
qed

text \<open>
  C2, as the claim states it, fails: the two classes are not disjoint. An event that
  carries no raw detail JSON matches with only \<^verbatim>\<open>ErrorsOnly\<close> enabled and also with only
  \<^verbatim>\<open>SuccessOnly\<close> enabled.
\<close>

theorem errorsOnly_successOnly_overlap_counterexample:
  "matchesFilter sampleUnmarshal asciiLower (sampleEvent None) errorsOnlyCriteria \<and>
   matchesFilter sampleUnmarshal asciiLower (sampleEvent None) successOnlyCriteria"
  by (simp add: sample_docs matchesFilter_conj errorCheck_doc errorsOnlyCriteria_def
        successOnlyCriteria_def noFilters_def)

text \<open>
  C2, amended: with all other criteria unset, every event matches under
  \<^verbatim>\<open>ErrorsOnly\<close> or under \<^verbatim>\<open>SuccessOnly\<close> (the classes are exhaustive); an event
  with no decoded detail document matches under both; and an event with a decoded document
  whose \<^verbatim>\<open>errorCode\<close> is not the empty string matches under \<^verbatim>\<open>ErrorsOnly\<close> iff the
  document contains a non-empty \<^verbatim>\<open>errorCode\<close>, and under \<^verbatim>\<open>SuccessOnly\<close> iff it does not.
\<close>

theorem errorsOnly_successOnly_classes:
  "(matchesFilter unm lower e errorsOnlyCriteria \<or> matchesFilter unm lower e successOnlyCriteria) \<and>
   (detailDoc unm e = None \<longrightarrow>
      matchesFilter unm lower e errorsOnlyCriteria \<and> matchesFilter unm lower e successOnlyCriteria) \<and>
   (detailDoc unm e = Some d \<and> index d ''errorCode'' \<noteq> JString [] \<longrightarrow>
      (matchesFilter unm lower e errorsOnlyCriteria \<longleftrightarrow> nonEmptyErrorCode d) \<and>
      (matchesFilter unm lower e successOnlyCriteria \<longleftrightarrow> \<not> nonEmptyErrorCode d))"
proof -
  have E: "matchesFilter unm lower e errorsOnlyCriteria
             = (case detailDoc unm e of None \<Rightarrow> True | Some d \<Rightarrow> hasErrorCode d)"
    by (simp add: matchesFilter_conj errorCheck_doc errorsOnlyCriteria_def noFilters_def
          split: option.splits)
  have S: "matchesFilter unm lower e successOnlyCriteria
             = (case detailDoc unm e of None \<Rightarrow> True | Some d \<Rightarrow> \<not> nonEmptyErrorCode d)"
    by (simp add: matchesFilter_conj errorCheck_doc successOnlyCriteria_def noFilters_def
          split: option.splits)
  have imp: "nonEmptyErrorCode d' \<Longrightarrow> hasErrorCode d'" for d'
    by (simp add: nonEmptyErrorCode_def hasErrorCode_def split: json.splits)
  have conv: "index d ''errorCode'' \<noteq> JString [] \<Longrightarrow> hasErrorCode d \<Longrightarrow> nonEmptyErrorCode d"
    by (simp add: nonEmptyErrorCode_def hasErrorCode_def split: json.splits)
  show ?thesis
    unfolding E S using imp conv by (cases "detailDoc unm e") auto
qed

theorem errorsOnly_successOnly_classes_witness:
  \<open>detailDoc sampleUnmarshal (sampleEvent (Some ''{"errorCode":"AccessDenied"}''))
     = Some (Some [''errorCode'' \<mapsto> JString ''AccessDenied'']) \<and>
   index (Some [''errorCode'' \<mapsto> JString ''AccessDenied'']) ''errorCode'' \<noteq> JString [] \<and>
   nonEmptyErrorCode (Some [''errorCode'' \<mapsto> JString ''AccessDenied'']) \<and>
   matchesFilter sampleUnmarshal asciiLower
     (sampleEvent (Some ''{"errorCode":"AccessDenied"}'')) errorsOnlyCriteria \<and>
   \<not> matchesFilter sampleUnmarshal asciiLower
     (sampleEvent (Some ''{"errorCode":"AccessDenied"}'')) successOnlyCriteria \<and>
   detailDoc sampleUnmarshal (sampleEvent None) = None \<and>
   matchesFilter sampleUnmarshal asciiLower (sampleEvent None) successOnlyCriteria\<close>
proof -
  have code: "index (Some [''errorCode'' \<mapsto> JString ''AccessDenied'']) ''errorCode'' \<noteq> JString []"
    by (simp add: index_def)
  have ne: "nonEmptyErrorCode (Some [''errorCode'' \<mapsto> JString ''AccessDenied''])"
    by (simp add: nonEmptyErrorCode_def index_def)
  show ?thesis
    using code ne sample_docs(1,4)
      errorsOnly_successOnly_classes
        [of sampleUnmarshal asciiLower \<open>sampleEvent (Some ''{"errorCode":"AccessDenied"}'')\<close>
            "Some [''errorCode'' \<mapsto> JString ''AccessDenied'']"]
      errorsOnly_successOnly_classes
        [of sampleUnmarshal asciiLower "sampleEvent None" "Some Map.empty"]
    by blast
qed

text \<open>
  C9: for every event and every criteria set, enabling one additional criterion never
  turns a non-matching event into a matching one: an event that matches the extended
  criteria matches the original criteria.
\<close>

theorem enabling_a_criterion_shrinks_matches:
  "enablesOne f g \<Longrightarrow> matchesFilter unm lower e g \<Longrightarrow> matchesFilter unm lower e f"
  using enablesOne_extends matchesFilter_antimono by blast

theorem enabling_a_criterion_shrinks_matches_witness:
  "enablesOne (noFilters\<lparr>EventName_f := ''decrypt''\<rparr>)
              (noFilters\<lparr>EventName_f := ''decrypt'', UserName := ''ADMIN''\<rparr>) \<and>
   matchesFilter sampleUnmarshal asciiLower (sampleEvent None)
     (noFilters\<lparr>EventName_f := ''decrypt'', UserName := ''ADMIN''\<rparr>) \<and>
   matchesFilter sampleUnmarshal asciiLower (sampleEvent None)
     (noFilters\<lparr>EventName_f := ''decrypt''\<rparr>)"
proof -
  have one: "enablesOne (noFilters\<lparr>EventName_f := ''decrypt''\<rparr>)
               (noFilters\<lparr>EventName_f := ''decrypt'', UserName := ''ADMIN''\<rparr>)"
    by (simp add: enablesOne_def noFilters_def)
  have m: "matchesFilter sampleUnmarshal asciiLower (sampleEvent None)
             (noFilters\<lparr>EventName_f := ''decrypt'', UserName := ''ADMIN''\<rparr>)"
    by (simp add: matchesFilter_def errorCheck_def noFilters_def sampleEvent_def asciiLower_def)
  show ?thesis
    using one m enabling_a_criterion_shrinks_matches [OF one m] by simp
qed

section \<open>Properties of the time-range resolver\<close>

lemma Sub_negative: "Sub t u < 0 \<longleftrightarrow> t < u"
  by (auto simp: Sub_def maxDuration_def minDuration_def Let_def)

lemma Sub_over_day: "Sub t u > 24 * Hour \<longleftrightarrow> t - u > 24 * Hour"
  by (auto simp: Sub_def maxDuration_def minDuration_def Let_def Hour_def Minute_def Second_def)

lemma Sub_exact: "0 \<le> t - u \<Longrightarrow> t - u \<le> 24 * Hour \<Longrightarrow> Sub t u = t - u"
  by (auto simp: Sub_def maxDuration_def minDuration_def Let_def Hour_def Minute_def Second_def)

lemma CustomTimeRange_result:
  assumes "tryLayouts parse layouts start = Some ps" and "tryLayouts parse layouts end = Some pe"
  shows "CustomTimeRange parse start end =
           (let e = (if Contains end '':'' then pe
                     else pe + (23 * Hour + 59 * Minute + 59 * Second)) in
            if e < ps then Inl EndBeforeStart
            else if e - ps > 24 * Hour then Inl RangeTooLarge
            else Inr (ps, e))"
  using assms by (simp add: CustomTimeRange_def Let_def Sub_negative Sub_over_day)

lemma CustomTimeRange_bounded:
  assumes "CustomTimeRange parse start end = Inr (s, e)"
  shows "s \<le> e \<and> e - s \<le> 24 * Hour"
proof -
  from assms obtain ps where ps: "tryLayouts parse layouts start = Some ps"
    by (auto simp: CustomTimeRange_def split: option.splits)
  from assms ps obtain pe where pe: "tryLayouts parse layouts end = Some pe"
    by (auto simp: CustomTimeRange_def split: option.splits)
  show ?thesis
    using assms unfolding CustomTimeRange_result [OF ps pe]
    by (auto simp: Let_def split: if_splits)
qed

lemma RelativeTimeRange_result:
  "RelativeTimeRange now s =
     (case requestedDuration s of
        Some d \<Rightarrow> Inr (now - d, now)
      | None \<Rightarrow> (if FindStringSubmatch s = None then Inl InvalidRelativeFormat
                 else if last s = CHR ''m'' then Inl MinutesOutOfRange
                 else Inl HoursOutOfRange))"
  by (auto simp: RelativeTimeRange_def requestedDuration_def FindStringSubmatch_def Let_def
        Atoi_def split: option.splits)

lemma requestedDuration_bounds: "requestedDuration s = Some d \<Longrightarrow> 0 < d \<and> d \<le> 24 * Hour"
  by (auto simp: requestedDuration_def Let_def Hour_def Minute_def Second_def split: if_splits)

lemma RelativeTimeRange_bounded:
  assumes "RelativeTimeRange now lastN = Inr (s, e)"
  shows "s \<le> e \<and> e - s \<le> 24 * Hour"
proof (cases "requestedDuration lastN")
  case None
  with assms show ?thesis by (simp add: RelativeTimeRange_result split: if_splits)
next
  case (Some d)
  with assms have "s = now - d" and "e = now" by (simp_all add: RelativeTimeRange_result)
  with requestedDuration_bounds [OF Some] show ?thesis by simp
qed

lemmas calendar_defs =
  layouts_def parseUTC_def readDate_def readClock_def decimal_def isDigit_def daysIn_def
  daysFromCivil_def utc_def Hour_def Minute_def Second_def

lemma sample_parses:
  "tryLayouts parseUTC layouts ''2024-11-20'' = Some (utc 2024 11 20 0 0 0)"
  "tryLayouts parseUTC layouts ''2024-11-21'' = Some (utc 2024 11 21 0 0 0)"
  "tryLayouts parseUTC layouts ''2024-11-20 10:00'' = Some (utc 2024 11 20 10 0 0)"
  "tryLayouts parseUTC layouts ''2024-11-20 12:30:15'' = Some (utc 2024 11 20 12 30 15)"
  by (simp_all add: calendar_defs)

text \<open>
  C3: every window that \<^verbatim>\<open>ValidateAndParseTimeRange\<close> returns, on the relative path as on
  the absolute one, has \<open>end \<ge> start\<close> and \<open>end - start \<le> 24h\<close>. On the absolute path,
  with both strings parsed and the end taken as the code validates it (a date-only end at
  the last second of its day), an end before the start fails with the error "end time
  cannot be before start time", and a range of more than 24 hours fails with "time range
  cannot exceed 24 hours".
\<close>

theorem validated_window_within_a_day:
  "(ValidateAndParseTimeRange parse now lastN start end = Inr (s, e)
      \<longrightarrow> s \<le> e \<and> e - s \<le> 24 * Hour) \<and>
   (lastN = [] \<and> start \<noteq> [] \<and> end \<noteq> [] \<and>
    tryLayouts parse layouts start = Some ps \<and> tryLayouts parse layouts end = Some pe \<and>
    e' = (if Contains end '':'' then pe else pe + (23 * Hour + 59 * Minute + 59 * Second))
      \<longrightarrow> (e' < ps \<longrightarrow>
             ValidateAndParseTimeRange parse now lastN start end = Inl EndBeforeStart) \<and>
          (e' - ps > 24 * Hour \<longrightarrow>
             ValidateAndParseTimeRange parse now lastN start end = Inl RangeTooLarge))"
proof (intro conjI impI)
  assume "ValidateAndParseTimeRange parse now lastN start end = Inr (s, e)"
  then have "RelativeTimeRange now lastN = Inr (s, e) \<or> CustomTimeRange parse start end = Inr (s, e)"
    by (auto simp: ValidateAndParseTimeRange_def split: if_splits)
  then show "s \<le> e" and "e - s \<le> 24 * Hour"
    using RelativeTimeRange_bounded CustomTimeRange_bounded by blast+
next
  assume a: "lastN = [] \<and> start \<noteq> [] \<and> end \<noteq> [] \<and>
    tryLayouts parse layouts start = Some ps \<and> tryLayouts parse layouts end = Some pe \<and>
    e' = (if Contains end '':'' then pe else pe + (23 * Hour + 59 * Minute + 59 * Second))"
  then have V: "ValidateAndParseTimeRange parse now lastN start end
                  = CustomTimeRange parse start end"
    by (simp add: ValidateAndParseTimeRange_def)
  from a have C: "CustomTimeRange parse start end =
           (if e' < ps then Inl EndBeforeStart
            else if e' - ps > 24 * Hour then Inl RangeTooLarge
            else Inr (ps, e'))"
    using CustomTimeRange_result [of parse start ps "end" pe] by (simp add: Let_def)
  { assume "e' < ps"
    then show "ValidateAndParseTimeRange parse now lastN start end = Inl EndBeforeStart"
      by (simp add: V C) }
  { assume "e' - ps > 24 * Hour"
    then have "\<not> e' < ps" by (simp add: Hour_def Minute_def Second_def)
    then show "ValidateAndParseTimeRange parse now lastN start end = Inl RangeTooLarge"
      using \<open>e' - ps > 24 * Hour\<close> by (simp add: V C) }
qed

theorem validated_window_within_a_day_witness:
  "ValidateAndParseTimeRange parseUTC (utc 2024 11 21 8 0 0) [] ''2024-11-20 10:00'' ''2024-11-20''
     = Inr (utc 2024 11 20 10 0 0, utc 2024 11 20 23 59 59) \<and>
   utc 2024 11 20 10 0 0 \<le> utc 2024 11 20 23 59 59 \<and>
   utc 2024 11 20 23 59 59 - utc 2024 11 20 10 0 0 \<le> 24 * Hour \<and>
   ValidateAndParseTimeRange parseUTC (utc 2024 11 21 8 0 0) ''90m'' [] []
     = Inr (utc 2024 11 21 6 30 0, utc 2024 11 21 8 0 0) \<and>
   utc 2024 11 21 6 30 0 \<le> utc 2024 11 21 8 0 0 \<and>
   utc 2024 11 21 8 0 0 - utc 2024 11 21 6 30 0 \<le> 24 * Hour \<and>
   ValidateAndParseTimeRange parseUTC (utc 2024 11 21 8 0 0) [] ''2024-11-20 12:30:15'' ''2024-11-20 10:00''
     = Inl EndBeforeStart \<and>
   ValidateAndParseTimeRange parseUTC (utc 2024 11 21 8 0 0) [] ''2024-11-20'' ''2024-11-21''
     = Inl RangeTooLarge"
proof -
  have abs_ok: "ValidateAndParseTimeRange parseUTC (utc 2024 11 21 8 0 0) []
                  ''2024-11-20 10:00'' ''2024-11-20''
                = Inr (utc 2024 11 20 10 0 0, utc 2024 11 20 23 59 59)"
    by (simp add: ValidateAndParseTimeRange_def CustomTimeRange_def sample_parses Sub_def
          maxDuration_def minDuration_def utc_def daysFromCivil_def Hour_def Minute_def Second_def)
  have rel_ok: "ValidateAndParseTimeRange parseUTC (utc 2024 11 21 8 0 0) ''90m'' [] []
                = Inr (utc 2024 11 21 6 30 0, utc 2024 11 21 8 0 0)"
    by (simp add: ValidateAndParseTimeRange_def RelativeTimeRange_def FindStringSubmatch_def
          Atoi_def decimal_def isDigit_def utc_def daysFromCivil_def Hour_def Minute_def Second_def)
  have before: "utc 2024 11 20 10 0 0 < utc 2024 11 20 12 30 15"
    by (simp add: utc_def daysFromCivil_def Hour_def Minute_def Second_def)
  have large: "utc 2024 11 21 0 0 0 + (23 * Hour + 59 * Minute + 59 * Second)
                 - utc 2024 11 20 0 0 0 > 24 * Hour"
    by (simp add: utc_def daysFromCivil_def Hour_def Minute_def Second_def)
  note T = validated_window_within_a_day
  from T [of parseUTC "utc 2024 11 21 8 0 0" "[]" "''2024-11-20 10:00''" "''2024-11-20''"
            "utc 2024 11 20 10 0 0" "utc 2024 11 20 23 59 59"] abs_ok
  have 1: "utc 2024 11 20 10 0 0 \<le> utc 2024 11 20 23 59 59 \<and>
           utc 2024 11 20 23 59 59 - utc 2024 11 20 10 0 0 \<le> 24 * Hour"
    by blast
  from T [of parseUTC "utc 2024 11 21 8 0 0" "''90m''" "[]" "[]"
            "utc 2024 11 21 6 30 0" "utc 2024 11 21 8 0 0"] rel_ok
  have 2: "utc 2024 11 21 6 30 0 \<le> utc 2024 11 21 8 0 0 \<and>
           utc 2024 11 21 8 0 0 - utc 2024 11 21 6 30 0 \<le> 24 * Hour"
    by blast
  from T [of parseUTC "utc 2024 11 21 8 0 0" "[]" "''2024-11-20 12:30:15''" "''2024-11-20 10:00''"
            _ _ "utc 2024 11 20 12 30 15" "utc 2024 11 20 10 0 0" "utc 2024 11 20 10 0 0"]
       sample_parses before
  have 3: "ValidateAndParseTimeRange parseUTC (utc 2024 11 21 8 0 0) []
             ''2024-11-20 12:30:15'' ''2024-11-20 10:00'' = Inl EndBeforeStart"
    by simp
  from T [of parseUTC "utc 2024 11 21 8 0 0" "[]" "''2024-11-20''" "''2024-11-21''"
            _ _ "utc 2024 11 20 0 0 0" "utc 2024 11 21 0 0 0"
            "utc 2024 11 21 0 0 0 + (23 * Hour + 59 * Minute + 59 * Second)"]
       sample_parses large
  have 4: "ValidateAndParseTimeRange parseUTC (utc 2024 11 21 8 0 0) []
             ''2024-11-20'' ''2024-11-21'' = Inl RangeTooLarge"
    by simp
  show ?thesis using abs_ok rel_ok 1 2 3 4 by simp
qed

text \<open>
  C5: a relative spec resolves iff it is an integer followed by \<^verbatim>\<open>m\<close> with a value from
  1 to 1440 or by \<^verbatim>\<open>h\<close> with a value from 1 to 24. On success the window is
  \<open>[now - duration, now)\<close>, so \<open>end - start\<close> is exactly the requested duration; every
  other string fails.
\<close>

theorem relative_spec_resolves:
  "(requestedDuration s = Some d \<longrightarrow>
      RelativeTimeRange now s = Inr (now - d, now) \<and> Sub now (now - d) = d) \<and>
   (requestedDuration s = None \<longrightarrow> (\<exists>err. RelativeTimeRange now s = Inl err))"
proof (intro conjI impI)
  assume d: "requestedDuration s = Some d"
  then show "RelativeTimeRange now s = Inr (now - d, now)"
    by (simp add: RelativeTimeRange_result)
  from requestedDuration_bounds [OF d] show "Sub now (now - d) = d"
    using Sub_exact [of now "now - d"] by simp
next
  assume "requestedDuration s = None"
  then show "\<exists>err. RelativeTimeRange now s = Inl err"
    by (simp add: RelativeTimeRange_result)
qed

theorem relative_spec_resolves_witness:
  "requestedDuration ''90m'' = Some (90 * Minute) \<and>
   RelativeTimeRange (utc 2024 11 21 8 0 0) ''90m''
     = Inr (utc 2024 11 21 8 0 0 - 90 * Minute, utc 2024 11 21 8 0 0) \<and>
   Sub (utc 2024 11 21 8 0 0) (utc 2024 11 21 8 0 0 - 90 * Minute) = 90 * Minute \<and>
   requestedDuration ''25h'' = None \<and>
   (\<exists>err. RelativeTimeRange (utc 2024 11 21 8 0 0) ''25h'' = Inl err)"
proof -
  have ok: "requestedDuration ''90m'' = Some (90 * Minute)"
    by (simp add: requestedDuration_def decimal_def isDigit_def)
  have bad: "requestedDuration ''25h'' = None"
    by (simp add: requestedDuration_def decimal_def isDigit_def)
  show ?thesis
    using ok bad
      relative_spec_resolves [of "''90m''" "90 * Minute" "utc 2024 11 21 8 0 0"]
      relative_spec_resolves [of "''25h''" 0 "utc 2024 11 21 8 0 0"]
    by blast
qed

text \<open>
  C6: when the end string is date-only (it has no colon, so only the layout
  \<^verbatim>\<open>YYYY-MM-DD\<close> can have parsed it), 23 hours 59 minutes 59 seconds are added to the parsed
  end before the range is validated, and the widened end is the one returned; the parsed
  end being midnight, that is 23:59:59 of the same calendar day. The start is the parsed
  instant as it is, midnight of its day for a date-only start.
\<close>

theorem date_only_end_is_end_of_day:
  assumes "Contains end '':'' = False"
    and "tryLayouts parse layouts start = Some ps"
    and "tryLayouts parse layouts end = Some pe"
    and "clockOf pe = 0"
  shows "CustomTimeRange parse start end =
           (if pe + (23 * Hour + 59 * Minute + 59 * Second) < ps then Inl EndBeforeStart
            else if pe + (23 * Hour + 59 * Minute + 59 * Second) - ps > 24 * Hour
              then Inl RangeTooLarge
            else Inr (ps, pe + (23 * Hour + 59 * Minute + 59 * Second))) \<and>
         dayOf (pe + (23 * Hour + 59 * Minute + 59 * Second)) = dayOf pe \<and>
         clockOf (pe + (23 * Hour + 59 * Minute + 59 * Second))
           = 23 * Hour + 59 * Minute + 59 * Second"
proof -
  have "CustomTimeRange parse start end =
           (if pe + (23 * Hour + 59 * Minute + 59 * Second) < ps then Inl EndBeforeStart
            else if pe + (23 * Hour + 59 * Minute + 59 * Second) - ps > 24 * Hour
              then Inl RangeTooLarge
            else Inr (ps, pe + (23 * Hour + 59 * Minute + 59 * Second)))"
    using assms(1) CustomTimeRange_result [OF assms(2,3)] by (simp add: Let_def)
  moreover from assms(4) obtain k where "pe = k * (24 * Hour)"
    unfolding clockOf_def by (metis mod_eq_0_iff_dvd dvd_def mult.commute)
  then have "dayOf (pe + (23 * Hour + 59 * Minute + 59 * Second)) = dayOf pe"
    and "clockOf (pe + (23 * Hour + 59 * Minute + 59 * Second))
           = 23 * Hour + 59 * Minute + 59 * Second"
    by (simp_all add: dayOf_def clockOf_def Hour_def Minute_def Second_def)
  ultimately show ?thesis by simp
qed

theorem date_only_end_is_end_of_day_witness:
  "Contains ''2024-11-20'' '':'' = False \<and>
   tryLayouts parseUTC layouts ''2024-11-20'' = Some (utc 2024 11 20 0 0 0) \<and>
   clockOf (utc 2024 11 20 0 0 0) = 0 \<and>
   CustomTimeRange parseUTC ''2024-11-20'' ''2024-11-20''
     = Inr (utc 2024 11 20 0 0 0, utc 2024 11 20 23 59 59) \<and>
   dayOf (utc 2024 11 20 23 59 59) = dayOf (utc 2024 11 20 0 0 0) \<and>
   clockOf (utc 2024 11 20 23 59 59) = 23 * Hour + 59 * Minute + 59 * Second"
proof -
  have nocolon: "Contains ''2024-11-20'' '':'' = False"
    by simp
  have midnight: "clockOf (utc 2024 11 20 0 0 0) = 0"
    by (simp add: clockOf_def utc_def daysFromCivil_def Hour_def Minute_def Second_def)
  have widened: "utc 2024 11 20 0 0 0 + (23 * Hour + 59 * Minute + 59 * Second)
                   = utc 2024 11 20 23 59 59"
    by (simp add: utc_def daysFromCivil_def Hour_def Minute_def Second_def)
  have order: "\<not> utc 2024 11 20 23 59 59 < utc 2024 11 20 0 0 0"
              "\<not> utc 2024 11 20 23 59 59 - utc 2024 11 20 0 0 0 > 24 * Hour"
    by (simp_all add: utc_def daysFromCivil_def Hour_def Minute_def Second_def)
  show ?thesis
    using nocolon midnight sample_parses(1) order
      date_only_end_is_end_of_day [OF nocolon sample_parses(1) sample_parses(1) midnight]
    unfolding widened by simp
qed

section \<open>Properties of the sink and of the scan\<close>

lemma say_fields [simp]:
  "requests (say l st) = requests st" "files (say l st) = files st"
  "ticks (say l st) = ticks st" "opens (say l st) = opens st"
  "shown (say l st) = shown st @ [l]"
  by (simp_all add: say_def)

lemma warned_requests [simp]: "requests (warned msg err st) = requests st"
  by (simp add: warned_def split: option.splits)

lemma renderContent_timed:
  "EventTime event = Some t \<Longrightarrow> \<exists>r. renderContent W w event d = Returned r"
  by (auto simp: renderContent_def formatEventAsText_def split: sum.splits)

lemma WriteEvent_timed:
  assumes "EventTime event = Some t"
  shows "\<exists>r st'. WriteEvent W w event d st = (Returned r, st')"
proof -
  from renderContent_timed [OF assms] obtain r where r: "renderContent W w event d = Returned r"
    by blast
  show ?thesis
    unfolding WriteEvent_def Let_def r
    by (cases r) (auto split: option.splits prod.splits)
qed

lemma WriteEvent_requests:
  "WriteEvent W w event d st = (r, st') \<Longrightarrow> requests st' = requests st"
  unfolding WriteEvent_def Let_def
  by (auto split: option.splits prod.splits outcome.splits sum.splits if_splits)

lemma handleEvent_skip:
  "\<not> matchesFilter (unmarshal W) (toLower W) event filters \<Longrightarrow>
   handleEvent W m filters event (k, st) = Returned (k, st)"
  by (simp add: handleEvent_def)

lemma handleEvent_match:
  assumes "matchesFilter (unmarshal W) (toLower W) event filters"
    and "WriteEvent W (logWriter m) event (decoded W event)
           (warned ''Warning: Failed to parse event details: '' (decodeError W event) st)
         = (Returned r, st2)"
    and "EventTime event = Some t"
  shows "handleEvent W m filters event (k, st) =
           Returned (k + 1, say (EventBlock event (decoded W event))
                              (warned ''Warning: Failed to write to log file: '' r st2))"
proof -
  have dec: "(case CloudTrailEvent event of
                None \<Rightarrow> (None, st)
              | Some raw \<Rightarrow>
                  (case unmarshal W raw of
                     (d, None) \<Rightarrow> (d, st)
                   | (d, Some err) \<Rightarrow>
                       (d, say (Warning ''Warning: Failed to parse event details: '' err) st)))
             = (decoded W event,
                warned ''Warning: Failed to parse event details: '' (decodeError W event) st)"
    by (simp add: decoded_def decodeError_def warned_def split: option.splits prod.splits)
  show ?thesis
    unfolding handleEvent_def using assms
    by (simp add: dec Let_def warned_def split: option.splits)
qed

lemma handleEvent_requests:
  "handleEvent W m filters event (k, st) = Returned (k', st') \<Longrightarrow> requests st' = requests st"
proof (cases "matchesFilter (unmarshal W) (toLower W) event filters")
  case False
  then show "handleEvent W m filters event (k, st) = Returned (k', st') \<Longrightarrow> ?thesis"
    by (simp add: handleEvent_skip)
next
  case True
  assume h: "handleEvent W m filters event (k, st) = Returned (k', st')"
  obtain o2 st2 where w: "WriteEvent W (logWriter m) event (decoded W event)
           (warned ''Warning: Failed to parse event details: '' (decodeError W event) st) = (o2, st2)"
    by (cases "WriteEvent W (logWriter m) event (decoded W event)
           (warned ''Warning: Failed to parse event details: '' (decodeError W event) st)")
  from WriteEvent_requests [OF w] have r2: "requests st2 = requests st" by simp
  show ?thesis
  proof (cases "EventTime event")
    case None
    with h True show ?thesis
      by (auto simp: handleEvent_def Let_def split: prod.splits outcome.splits)
  next
    case (Some t)
    from WriteEvent_timed [OF Some] w obtain r where o2: "o2 = Returned r"
      by (metis fst_conv)
    from handleEvent_match [OF True w [unfolded o2] Some, of k] h r2
    show ?thesis by auto
  qed
qed

lemma handleEvent_timed:
  assumes "EventTime event = Some t"
  shows "\<exists>cs'. handleEvent W m filters event cs = Returned cs'"
proof (cases cs)
  case (Pair k st)
  show ?thesis
  proof (cases "matchesFilter (unmarshal W) (toLower W) event filters")
    case False
    then show ?thesis by (simp add: Pair handleEvent_skip)
  next
    case True
    from WriteEvent_timed [OF assms] obtain r st2 where
      "WriteEvent W (logWriter m) event (decoded W event)
         (warned ''Warning: Failed to parse event details: '' (decodeError W event) st)
       = (Returned r, st2)" by blast
    from handleEvent_match [OF True this assms] show ?thesis by (simp add: Pair)
  qed
qed

lemma handleEvents_requests:
  "handleEvents W m filters evs cs = Returned cs' \<Longrightarrow> requests (snd cs') = requests (snd cs)"
proof (induction evs arbitrary: cs)
  case Nil
  then show ?case by simp
next
  case (Cons ev evs)
  from Cons.prems obtain cs1 where 1: "handleEvent W m filters ev cs = Returned cs1"
    and 2: "handleEvents W m filters evs cs1 = Returned cs'"
    by (auto split: outcome.splits)
  from 1 have "requests (snd cs1) = requests (snd cs)"
    using handleEvent_requests [of W m filters ev "fst cs" "snd cs" "fst cs1" "snd cs1"] by simp
  with Cons.IH [OF 2] show ?case by simp
qed

lemma handleEvents_timed:
  "timed evs \<Longrightarrow> \<exists>cs'. handleEvents W m filters evs cs = Returned cs'"
proof (induction evs arbitrary: cs)
  case Nil
  then show ?case by simp
next
  case (Cons ev evs)
  from Cons.prems obtain t where t: "EventTime ev = Some t" and rest: "timed evs"
    by (auto simp: timed_def)
  from handleEvent_timed [OF t] obtain cs1 where "handleEvent W m filters ev cs = Returned cs1"
    by blast
  with Cons.IH [OF rest, of cs1] show ?case by simp
qed



lemma warned_fields [simp]:
  "opens (warned msg err st) = opens st" "ticks (warned msg err st) = ticks st"
  "shown (warned msg err st) = shown st @ (case err of None \<Rightarrow> [] | Some e \<Rightarrow> [Warning msg e])"
  by (simp_all add: warned_def split: option.splits)









lemma pageLoop_advance:
  assumes "\<forall>i<j. case nextPage W start end (n + i) of
                   Inl err \<Rightarrow> False
                 | Inr p \<Rightarrow> HasMorePages p \<and> timed (Events p)"
  shows "\<exists>cs'. pageLoop W m filters start end n cs = pageLoop W m filters start end (n + j) cs'
              \<and> requests (snd cs') = requests (snd cs) + j"
  using assms
proof (induction j arbitrary: n cs)
  case 0
  show ?case by (intro exI [of _ cs]) simp
next
  case (Suc j)
  obtain k st where cs: "cs = (k, st)" by (cases cs)
  from Suc.prems have "case nextPage W start end (n + 0) of
                   Inl err \<Rightarrow> False
                 | Inr p \<Rightarrow> HasMorePages p \<and> timed (Events p)" by blast
  then obtain p where p: "nextPage W start end n = Inr p" and more: "HasMorePages p"
    and t: "timed (Events p)"
    by (auto split: sum.splits)
  from handleEvents_timed [OF t] obtain cs1 where
    h: "handleEvents W m filters (Events p) (k, st\<lparr>requests := requests st + 1\<rparr>) = Returned cs1"
    by blast
  from handleEvents_requests [OF h] have req1: "requests (snd cs1) = requests st + 1" by simp
  have step: "pageLoop W m filters start end n cs = pageLoop W m filters start end (n + 1) cs1"
    using h more by (subst pageLoop.simps) (simp add: cs p Let_def)
  have "\<forall>i<j. case nextPage W start end (n + 1 + i) of
                   Inl err \<Rightarrow> False
                 | Inr p \<Rightarrow> HasMorePages p \<and> timed (Events p)"
  proof (intro allI impI)
    fix i assume "i < j"
    with Suc.prems have "case nextPage W start end (n + Suc i) of
                   Inl err \<Rightarrow> False
                 | Inr p \<Rightarrow> HasMorePages p \<and> timed (Events p)" by auto
    then show "case nextPage W start end (n + 1 + i) of
                   Inl err \<Rightarrow> False
                 | Inr p \<Rightarrow> HasMorePages p \<and> timed (Events p)" by simp
  qed
  from Suc.IH [OF this, of cs1] obtain cs' where
    "pageLoop W m filters start end (n + 1) cs1 = pageLoop W m filters start end (n + 1 + j) cs'"
    and "requests (snd cs') = requests (snd cs1) + j" by blast
  with step req1 cs show ?case
    by (intro exI [of _ cs']) (simp add: add.commute add.left_commute)
qed






lemma GetCurrentFile_fields:
  "opens (snd (GetCurrentFile W w st)) = opens st"
  "ticks (snd (GetCurrentFile W w st)) = ticks st + (if customFile w = [] then 1 else 0)"
  "shown (snd (GetCurrentFile W w st)) = shown st"
  "requests (snd (GetCurrentFile W w st)) = requests st"
  by (simp_all add: GetCurrentFile_def)

lemma say_prefix: "\<exists>ls. shown (say l st) = shown st @ ls"
  by simp


lemma printHeader_requests [simp]:
  "requests (printHeader W m filters start end st) = requests st"
  by (simp add: printHeader_def GetCurrentFile_def Let_def split: prod.splits)


lemma MonitorKMSEvents_pageLoop:
  assumes "pageLoop W m filters start end 0 (0, printHeader W m filters start end st)
             = Some (Returned (r, k, st1))"
  shows "\<exists>st'. MonitorKMSEvents W m filters start end st = Some (Returned (r, st'))
               \<and> requests st' = requests st1"
  using assms by (cases r) (simp_all add: MonitorKMSEvents_def)

lemma MonitorKMSEvents_fails:
  assumes "pagesDelivered W start end j" and "nextPage W start end j = Inl cause"
  shows "\<exists>st'. MonitorKMSEvents W m filters start end st
                  = Some (Returned (Some (''error looking up events: '' @ cause), st'))
               \<and> requests st' = requests st + j + 1"
proof -
  from assms(1) have "\<forall>i<j. case nextPage W start end (0 + i) of
                   Inl err \<Rightarrow> False
                 | Inr p \<Rightarrow> HasMorePages p \<and> timed (Events p)"
    by (simp add: pagesDelivered_def)
  from pageLoop_advance [OF this, of m filters "(0, printHeader W m filters start end st)"]
  obtain cs' where adv: "pageLoop W m filters start end 0 (0, printHeader W m filters start end st)
                    = pageLoop W m filters start end j cs'"
    and req: "requests (snd cs') = requests st + j"
    by auto
  obtain k st1 where cs': "cs' = (k, st1)" by (cases cs')
  have "pageLoop W m filters start end j cs'
          = Some (Returned (Some (''error looking up events: '' @ cause), k,
                            st1\<lparr>requests := requests st1 + 1\<rparr>))"
    by (subst pageLoop.simps) (simp add: cs' assms(2) Let_def)
  with adv MonitorKMSEvents_pageLoop [of W m filters start "end" st
         "Some (''error looking up events: '' @ cause)" k "st1\<lparr>requests := requests st1 + 1\<rparr>"]
    req cs'
  show ?thesis by auto
qed

lemma MonitorKMSEvents_completes:
  assumes "pagesDelivered W start end j" and "nextPage W start end j = Inr p"
    and "\<not> HasMorePages p" and "timed (Events p)"
  shows "\<exists>st'. MonitorKMSEvents W m filters start end st = Some (Returned (None, st'))
               \<and> requests st' = requests st + j + 1"
proof -
  from assms(1) have "\<forall>i<j. case nextPage W start end (0 + i) of
                   Inl err \<Rightarrow> False
                 | Inr p \<Rightarrow> HasMorePages p \<and> timed (Events p)"
    by (simp add: pagesDelivered_def)
  from pageLoop_advance [OF this, of m filters "(0, printHeader W m filters start end st)"]
  obtain cs' where adv: "pageLoop W m filters start end 0 (0, printHeader W m filters start end st)
                    = pageLoop W m filters start end j cs'"
    and req: "requests (snd cs') = requests st + j"
    by auto
  obtain k st1 where cs': "cs' = (k, st1)" by (cases cs')
  from handleEvents_timed [OF assms(4)] obtain cs2 where
    h: "handleEvents W m filters (Events p) (k, st1\<lparr>requests := requests st1 + 1\<rparr>) = Returned cs2"
    by blast
  from handleEvents_requests [OF h] have req2: "requests (snd cs2) = requests st1 + 1" by simp
  have "pageLoop W m filters start end j cs' = Some (Returned (None, cs2))"
    using h assms(3) by (subst pageLoop.simps) (simp add: cs' assms(2) Let_def)
  with adv MonitorKMSEvents_pageLoop [of W m filters start "end" st None "fst cs2" "snd cs2"]
    req req2 cs'
  show ?thesis by auto
qed








section \<open>Properties of the log file path\<close>

lemma splitPath_nonempty [simp]: "splitPath s \<noteq> []"
  by (induction s) (auto split: list.splits)

lemma splitPath_noslash: "CHR ''/'' \<notin> set t \<Longrightarrow> splitPath t = [t]"
  by (induction t) auto

lemma splitPath_append:
  "CHR ''/'' \<notin> set t \<Longrightarrow>
   splitPath (s @ t) = butlast (splitPath s) @ [last (splitPath s) @ t]"
proof (induction s)
  case Nil
  then show ?case by (simp add: splitPath_noslash)
next
  case (Cons c s)
  show ?case
  proof (cases "c = CHR ''/''")
    case True
    with Cons show ?thesis by simp
  next
    case False
    obtain x xs where sp: "splitPath s = x # xs"
      by (cases "splitPath s") simp_all
    with Cons False show ?thesis
      by (cases xs) (simp_all split: list.splits)
  qed
qed

lemma joinSlash_snoc:
  "joinSlash (xs @ [c]) = (if xs = [] then c else joinSlash xs @ ''/'' @ c)"
  by (induction xs rule: joinSlash.induct) simp_all

lemma logSuffix_noslash: "CHR ''/'' \<notin> set d \<Longrightarrow> CHR ''/'' \<notin> set (logSuffix d)"
  by (simp add: logSuffix_def)

lemma cleanStep_real:
  "length elem > 2 \<Longrightarrow> cleanStep rooted out elem = out @ [elem]"
  by (auto simp: cleanStep_def)

lemma Clean_suffix:
  assumes "CHR ''/'' \<notin> set d"
  shows "Clean (P @ logSuffix d) =
           (let rooted = (P \<noteq> [] \<and> hd P = CHR ''/'');
                out = foldl (cleanStep rooted) [] (butlast (splitPath P))
            in (if rooted then ''/'' else []) @ (if out = [] then [] else joinSlash out @ ''/'')
               @ last (splitPath P) @ logSuffix d)"
proof -
  have lne: "logSuffix d \<noteq> []" by (simp add: logSuffix_def)
  have rooted: "(hd (P @ logSuffix d) = CHR ''/'') = (P \<noteq> [] \<and> hd P = CHR ''/'')"
    by (cases P) (simp_all add: logSuffix_def)
  have len: "length (last (splitPath P) @ logSuffix d) > 2"
    by (simp add: logSuffix_def)
  show ?thesis
    unfolding Clean_def rooted
    by (simp add: lne splitPath_append [OF logSuffix_noslash [OF assms]] cleanStep_real [OF len]
          joinSlash_snoc Let_def)
qed

lemma Join_log:
  "\<exists>Q. \<forall>d. CHR ''/'' \<notin> set d \<longrightarrow>
      Join [dir, tag, tag @ ''-events-'' @ d @ ''.log''] = Q @ ''-events-'' @ d @ ''.log''"
proof -
  obtain P where P: "\<And>d. joinSlash (dropWhile (\<lambda>e. e = []) [dir, tag, tag @ logSuffix d]) = P @ logSuffix d"
    and ne: "\<And>d. dropWhile (\<lambda>e. e = []) [dir, tag, tag @ logSuffix d] \<noteq> []"
  proof (cases "dir = []")
    case False
    show ?thesis by (rule that [of "dir @ ''/'' @ tag @ ''/'' @ tag"]) (simp_all add: False)
  next
    case True
    show ?thesis
    proof (cases "tag = []")
      case False
      show ?thesis by (rule that [of "tag @ ''/'' @ tag"]) (simp_all add: True False)
    next
      case tag: True
      show ?thesis by (rule that [of "[]"]) (simp_all add: True tag logSuffix_def)
    qed
  qed
  have J: "Join [dir, tag, tag @ logSuffix d] = Clean (P @ logSuffix d)" for d
    using P [of d] ne [of d] unfolding Join_def
    by (cases "dropWhile (\<lambda>e. e = []) [dir, tag, tag @ logSuffix d]") simp_all
  let ?rooted = "P \<noteq> [] \<and> hd P = CHR ''/''"
  let ?out = "foldl (cleanStep ?rooted) [] (butlast (splitPath P))"
  let ?Q = "(if ?rooted then ''/'' else []) @ (if ?out = [] then [] else joinSlash ?out @ ''/'')
               @ last (splitPath P)"
  have "\<forall>d. CHR ''/'' \<notin> set d \<longrightarrow>
      Join [dir, tag, tag @ ''-events-'' @ d @ ''.log''] = ?Q @ ''-events-'' @ d @ ''.log''"
  proof (intro allI impI)
    fix d :: string assume d: "CHR ''/'' \<notin> set d"
    from J [of d] Clean_suffix [OF d, of P]
    show "Join [dir, tag, tag @ ''-events-'' @ d @ ''.log''] = ?Q @ ''-events-'' @ d @ ''.log''"
      by (simp add: logSuffix_def Let_def)
  qed
  then show ?thesis by blast
qed

lemma Join_log_inj:
  assumes "CHR ''/'' \<notin> set d1" and "CHR ''/'' \<notin> set d2"
  shows "(Join [dir, tag, tag @ ''-events-'' @ d1 @ ''.log'']
          = Join [dir, tag, tag @ ''-events-'' @ d2 @ ''.log'']) \<longleftrightarrow> d1 = d2"
proof -
  from Join_log [of dir tag] obtain Q where
    Q: "\<And>d. CHR ''/'' \<notin> set d \<Longrightarrow>
         Join [dir, tag, tag @ ''-events-'' @ d @ ''.log''] = Q @ ''-events-'' @ d @ ''.log''"
    by blast
  show ?thesis
    unfolding Q [OF assms(1)] Q [OF assms(2)] by simp
qed

section \<open>Properties of the sink\<close>

lemma WriteEvent_files:
  assumes "WriteEvent W w event d st = (r, st')"
  shows "(\<forall>path. path \<noteq> destination W w (clock W (ticks st)) \<longrightarrow> files st' path = files st path) \<and>
         (r = Returned None \<longrightarrow>
            (\<exists>content. renderContent W w event d = Returned (Inr content) \<and>
               files st' (destination W w (clock W (ticks st)))
                 = Some ((case files st (destination W w (clock W (ticks st))) of
                            None \<Rightarrow> [] | Some c \<Rightarrow> c) @ content)))"
  using assms unfolding WriteEvent_def destination_def Let_def
  by (auto split: if_splits option.splits outcome.splits sum.splits)

lemma destination_daily:
  assumes "customFile w = []"
    and "CHR ''/'' \<notin> set (format W ''2006-01-02'' ta)"
    and "CHR ''/'' \<notin> set (format W ''2006-01-02'' tb)"
  shows "(destination W w ta = destination W w tb)
           \<longleftrightarrow> format W ''2006-01-02'' ta = format W ''2006-01-02'' tb"
  using Join_log_inj [OF assms(2,3)] assms(1) by (simp add: destination_def)

lemma GetCurrentFile_destination:
  "fst (GetCurrentFile W w st) = destination W w (clock W (ticks st))"
  by (simp add: GetCurrentFile_def destination_def)




lemma WriteEvent_ok:
  assumes "openError W (opens st) (destination W w (clock W (ticks st))) = None"
    and "writeError W (opens st) (destination W w (clock W (ticks st))) = None"
    and "renderContent W w event d = Returned (Inr content)"
  shows "fst (WriteEvent W w event d st) = Returned None \<and>
         files (snd (WriteEvent W w event d st))
           = (files st)(destination W w (clock W (ticks st)) \<mapsto>
                (case files st (destination W w (clock W (ticks st))) of
                   None \<Rightarrow> [] | Some c \<Rightarrow> c) @ content)"
  using assms unfolding WriteEvent_def destination_def Let_def
  by (auto split: if_splits option.splits)

lemma renderContent_text:
  assumes "exportMode w \<noteq> ''json''" and "EventTime event = Some t"
  shows "\<exists>content. renderContent W w event d = Returned (Inr content)"
  using assms by (simp add: renderContent_def formatEventAsText_def)

lemmas world_defs =
  quietWorld_def sampleWorld_def sampleWriter_def jsonWriter_def NewLogWriter_def emptySys_def

lemma sample_dates:
  "formatUTC ''2006-01-02'' (utc 2024 11 20 23 59 59) = ''2024-11-20''"
  "formatUTC ''2006-01-02'' (utc 2024 11 20 23 59 59 + Second) = ''2024-11-21''"
  "formatUTC ''2006-01-02 15:04:05'' 1732096800000000000 = ''2024-11-20 10:00:00''"
  by code_simp+

lemma sample_paths:
  "Join [''/var/log/monitor'', ''kms'', ''kms-events-2024-11-20.log'']
     = ''/var/log/monitor/kms/kms-events-2024-11-20.log''"
  "Join [''/var/log/monitor'', ''kms'', ''kms-events-2024-11-21.log'']
     = ''/var/log/monitor/kms/kms-events-2024-11-21.log''"
  by (simp_all add: Join_def Clean_def cleanStep_def Let_def)

lemma sample_destinations:
  "destination quietWorld sampleWriter (utc 2024 11 20 23 59 59)
     = ''/var/log/monitor/kms/kms-events-2024-11-20.log''"
  "destination quietWorld sampleWriter (utc 2024 11 20 23 59 59 + Second)
     = ''/var/log/monitor/kms/kms-events-2024-11-21.log''"
  by (simp_all add: destination_def world_defs sample_dates sample_paths)

text \<open>
  C8, as the claim states it, fails in its last part: the path \<^verbatim>\<open>GetCurrentFile\<close> returns
  is not always the path of the next write. With no explicit file, \<^verbatim>\<open>GetCurrentFile\<close>
  called at 23:59:59 names the file of 2024-11-20, and the write that follows one second
  later goes to the file of 2024-11-21 and leaves the named one untouched.
\<close>

theorem current_file_changes_at_midnight_counterexample:
  "fst (GetCurrentFile quietWorld sampleWriter emptySys)
     = ''/var/log/monitor/kms/kms-events-2024-11-20.log'' \<and>
   fst (WriteEvent quietWorld sampleWriter (sampleEvent None) None
          (snd (GetCurrentFile quietWorld sampleWriter emptySys))) = Returned None \<and>
   files (snd (WriteEvent quietWorld sampleWriter (sampleEvent None) None
                 (snd (GetCurrentFile quietWorld sampleWriter emptySys))))
     ''/var/log/monitor/kms/kms-events-2024-11-20.log'' = None \<and>
   files (snd (WriteEvent quietWorld sampleWriter (sampleEvent None) None
                 (snd (GetCurrentFile quietWorld sampleWriter emptySys))))
     ''/var/log/monitor/kms/kms-events-2024-11-21.log'' \<noteq> None"
proof -
  let ?st = "emptySys\<lparr>ticks := 1\<rparr>"
  have c0: "clock quietWorld (ticks emptySys) = utc 2024 11 20 23 59 59"
    by (simp add: world_defs)
  have g1: "fst (GetCurrentFile quietWorld sampleWriter emptySys)
              = ''/var/log/monitor/kms/kms-events-2024-11-20.log''"
    by (simp add: GetCurrentFile_destination c0 sample_destinations)
  have g2: "snd (GetCurrentFile quietWorld sampleWriter emptySys) = ?st"
    by (simp add: GetCurrentFile_def world_defs)
  have c1: "clock quietWorld (ticks ?st) = utc 2024 11 20 23 59 59 + Second"
    by (simp add: world_defs)
  have mode: "exportMode sampleWriter \<noteq> ''json''"
    by (simp add: world_defs)
  have tm: "EventTime (sampleEvent None) = Some 1732096800000000000"
    by (simp add: sampleEvent_def)
  from renderContent_text [OF mode tm] obtain content where
    rc: "renderContent quietWorld sampleWriter (sampleEvent None) None = Returned (Inr content)"
    by blast
  have op: "openError quietWorld (opens ?st) (destination quietWorld sampleWriter (clock quietWorld (ticks ?st))) = None"
           "writeError quietWorld (opens ?st) (destination quietWorld sampleWriter (clock quietWorld (ticks ?st))) = None"
    by (simp_all add: world_defs)
  have fs: "files ?st = Map.empty"
    by (simp add: emptySys_def)
  from WriteEvent_ok [OF op rc]
  show ?thesis
    unfolding g1 g2 c1 sample_destinations fs by simp
qed


text \<open>
  C8, amended: each write goes to the explicit destination file when one is configured,
  else to \<^verbatim>\<open><outputDir>/<serviceTag>/<serviceTag>-events-<date>.log\<close> with the date read
  from the clock at the moment of the write, and touches no other file; with no explicit
  file, two writes go to the same file exactly when their clock readings format to the
  same date. \<^verbatim>\<open>GetCurrentFile\<close> resolves the path by the same rule from its own clock
  reading: it returns the path of a write made on the same calendar date, and of every
  write when an explicit file is configured.
\<close>

theorem write_destination_follows_clock_date:
  "(WriteEvent W w event d st = (r, st') \<longrightarrow>
      (\<forall>path. path \<noteq> destination W w (clock W (ticks st)) \<longrightarrow> files st' path = files st path)) \<and>
   (WriteEvent W w event d st = (Returned None, st') \<longrightarrow>
      (\<exists>content. files st' (destination W w (clock W (ticks st)))
                    = Some ((case files st (destination W w (clock W (ticks st))) of
                               None \<Rightarrow> [] | Some c \<Rightarrow> c) @ content))) \<and>
   (customFile w \<noteq> [] \<longrightarrow> destination W w ta = customFile w) \<and>
   (customFile w = [] \<longrightarrow>
      destination W w ta
        = Join [outputDir w, serviceTag w,
                serviceTag w @ ''-events-'' @ format W ''2006-01-02'' ta @ ''.log'']) \<and>
   (customFile w = [] \<and> CHR ''/'' \<notin> set (format W ''2006-01-02'' ta) \<and>
    CHR ''/'' \<notin> set (format W ''2006-01-02'' tb) \<longrightarrow>
      (destination W w ta = destination W w tb
         \<longleftrightarrow> format W ''2006-01-02'' ta = format W ''2006-01-02'' tb)) \<and>
   fst (GetCurrentFile W w st) = destination W w (clock W (ticks st)) \<and>
   (customFile w \<noteq> [] \<or>
    format W ''2006-01-02'' (clock W (ticks st)) = format W ''2006-01-02'' tb \<longrightarrow>
      fst (GetCurrentFile W w st) = destination W w tb)"
proof (intro conjI impI)
  assume "WriteEvent W w event d st = (r, st')"
  from WriteEvent_files [OF this]
  show "\<forall>path. path \<noteq> destination W w (clock W (ticks st)) \<longrightarrow> files st' path = files st path"
    by blast
next
  assume "WriteEvent W w event d st = (Returned None, st')"
  from WriteEvent_files [OF this]
  show "\<exists>content. files st' (destination W w (clock W (ticks st)))
                    = Some ((case files st (destination W w (clock W (ticks st))) of
                               None \<Rightarrow> [] | Some c \<Rightarrow> c) @ content)"
    by blast
next
  assume "customFile w \<noteq> []"
  then show "destination W w ta = customFile w" by (simp add: destination_def)
next
  assume "customFile w = []"
  then show "destination W w ta
        = Join [outputDir w, serviceTag w,
                serviceTag w @ ''-events-'' @ format W ''2006-01-02'' ta @ ''.log'']"
    by (simp add: destination_def)
next
  assume "customFile w = [] \<and> CHR ''/'' \<notin> set (format W ''2006-01-02'' ta) \<and>
    CHR ''/'' \<notin> set (format W ''2006-01-02'' tb)"
  then show "(destination W w ta = destination W w tb)
         = (format W ''2006-01-02'' ta = format W ''2006-01-02'' tb)"
    using destination_daily by blast
next
  show "fst (GetCurrentFile W w st) = destination W w (clock W (ticks st))"
    by (rule GetCurrentFile_destination)
next
  assume "customFile w \<noteq> [] \<or>
    format W ''2006-01-02'' (clock W (ticks st)) = format W ''2006-01-02'' tb"
  then show "fst (GetCurrentFile W w st) = destination W w tb"
    by (auto simp: GetCurrentFile_destination destination_def)
qed

theorem write_destination_follows_clock_date_witness:
  "customFile sampleWriter = [] \<and>
   CHR ''/'' \<notin> set (format quietWorld ''2006-01-02'' (utc 2024 11 20 23 59 59)) \<and>
   CHR ''/'' \<notin> set (format quietWorld ''2006-01-02'' (utc 2024 11 20 23 59 59 + Second)) \<and>
   format quietWorld ''2006-01-02'' (utc 2024 11 20 23 59 59)
     \<noteq> format quietWorld ''2006-01-02'' (utc 2024 11 20 23 59 59 + Second) \<and>
   destination quietWorld sampleWriter (utc 2024 11 20 23 59 59)
     \<noteq> destination quietWorld sampleWriter (utc 2024 11 20 23 59 59 + Second) \<and>
   customFile jsonWriter \<noteq> [] \<and>
   destination quietWorld jsonWriter (utc 2024 11 20 23 59 59) = ''/tmp/events.json'' \<and>
   fst (GetCurrentFile quietWorld jsonWriter emptySys)
     = destination quietWorld jsonWriter (utc 2024 11 20 23 59 59 + Second) \<and>
   (\<exists>st'. WriteEvent quietWorld sampleWriter (sampleEvent None) None emptySys = (Returned None, st') \<and>
      (\<exists>content. files st' ''/var/log/monitor/kms/kms-events-2024-11-20.log'' = Some content) \<and>
      files st' ''/var/log/monitor/kms/kms-events-2024-11-21.log'' = None)"
proof -
  note T = write_destination_follows_clock_date
  have dates: "format quietWorld ''2006-01-02'' (utc 2024 11 20 23 59 59) = ''2024-11-20''"
              "format quietWorld ''2006-01-02'' (utc 2024 11 20 23 59 59 + Second) = ''2024-11-21''"
    by (simp_all add: world_defs sample_dates)
  have daily: "customFile sampleWriter = []" and fixed: "customFile jsonWriter \<noteq> []"
    and fixedname: "customFile jsonWriter = ''/tmp/events.json''"
    by (simp_all add: world_defs)
  have noslash: "CHR ''/'' \<notin> set (format quietWorld ''2006-01-02'' (utc 2024 11 20 23 59 59))"
                "CHR ''/'' \<notin> set (format quietWorld ''2006-01-02'' (utc 2024 11 20 23 59 59 + Second))"
    unfolding dates by simp_all
  have differ: "format quietWorld ''2006-01-02'' (utc 2024 11 20 23 59 59)
                  \<noteq> format quietWorld ''2006-01-02'' (utc 2024 11 20 23 59 59 + Second)"
    unfolding dates by simp
  from T [where W = quietWorld and w = sampleWriter and ta = "utc 2024 11 20 23 59 59"
            and tb = "utc 2024 11 20 23 59 59 + Second" and st = emptySys
            and event = "sampleEvent None" and d = None and r = Panicked and st' = emptySys]
       daily noslash differ
  have newfile: "destination quietWorld sampleWriter (utc 2024 11 20 23 59 59)
                   \<noteq> destination quietWorld sampleWriter (utc 2024 11 20 23 59 59 + Second)"
    by blast
  from T [where W = quietWorld and w = jsonWriter and ta = "utc 2024 11 20 23 59 59"
            and tb = "utc 2024 11 20 23 59 59 + Second" and st = emptySys
            and event = "sampleEvent None" and d = None and r = Panicked and st' = emptySys]
       fixed fixedname
  have same: "destination quietWorld jsonWriter (utc 2024 11 20 23 59 59) = ''/tmp/events.json''"
    and cur: "fst (GetCurrentFile quietWorld jsonWriter emptySys)
                = destination quietWorld jsonWriter (utc 2024 11 20 23 59 59 + Second)"
    by auto
  have c0: "clock quietWorld (ticks emptySys) = utc 2024 11 20 23 59 59"
    by (simp add: world_defs)
  have mode: "exportMode sampleWriter \<noteq> ''json''"
    by (simp add: world_defs)
  have tm: "EventTime (sampleEvent None) = Some 1732096800000000000"
    by (simp add: sampleEvent_def)
  from WriteEvent_timed [OF tm] obtain r st' where
    w: "WriteEvent quietWorld sampleWriter (sampleEvent None) None emptySys = (Returned r, st')"
    by blast
  from renderContent_text [OF mode tm] obtain content where
    rc: "renderContent quietWorld sampleWriter (sampleEvent None) None = Returned (Inr content)"
    by blast
  have op: "openError quietWorld (opens emptySys)
              (destination quietWorld sampleWriter (clock quietWorld (ticks emptySys))) = None"
           "writeError quietWorld (opens emptySys)
              (destination quietWorld sampleWriter (clock quietWorld (ticks emptySys))) = None"
    by (simp_all add: world_defs)
  from WriteEvent_ok [OF op rc] w have r: "r = None" by simp
  from T [where W = quietWorld and w = sampleWriter and event = "sampleEvent None" and d = None
            and st = emptySys and r = "Returned None" and st' = st'
            and ta = 0 and tb = 0] w r
  have others: "\<forall>path. path \<noteq> destination quietWorld sampleWriter (clock quietWorld (ticks emptySys))
                  \<longrightarrow> files st' path = files emptySys path"
    and this_one: "\<exists>content. files st' (destination quietWorld sampleWriter (clock quietWorld (ticks emptySys)))
                    = Some ((case files emptySys (destination quietWorld sampleWriter
                                                    (clock quietWorld (ticks emptySys))) of
                               None \<Rightarrow> [] | Some c \<Rightarrow> c) @ content)"
    by blast+
  from others have "files st' ''/var/log/monitor/kms/kms-events-2024-11-21.log'' = None"
    unfolding c0 sample_destinations by (simp add: emptySys_def)
  moreover from this_one have "\<exists>content. files st' ''/var/log/monitor/kms/kms-events-2024-11-20.log''
                                  = Some content"
    unfolding c0 sample_destinations by blast
  ultimately show ?thesis
    using daily noslash differ newfile fixed same cur w r by blast
qed






subsection \<open>The scan as the forwarding of the matching events\<close>














lemma printHeader_files [simp]:
  "files (printHeader W m filters start end st) = files st"
  by (simp add: printHeader_def Let_def GetCurrentFile_def say_def split: prod.splits)

lemma warned_files [simp]: "files (warned msg err st) = files st"
  by (simp add: warned_def say_def split: option.splits)






end
